theory Spec2Isabelle
  imports Main
begin

section \<open>The pdf2csv pipeline: data model\<close>

text \<open>
  The repository holds two variants of one Streamlit script, \<open>main.py\<close> and \<open>pdf2csv.py\<close>.
  Both run the same three steps (PDF to JPG, JPG to TXT, TXT to CSV) and then hand the
  result to a language-model service. Everything the scripts do beyond computing strings
  is an effect on the working directory, on the user interface or on the network; the
  model threads a \<open>world\<close> record through the functions and returns it updated.

  A Python \<open>str\<close> is modelled as a \<open>string\<close>. The characters the reformatter looks at
  (comma, space, double quote, line feed) are ASCII, and no byte of a multi-byte UTF-8
  sequence equals one of them, so the transformation of the encoded text is the encoding
  of the transformed text.
\<close>

type_synonym path = string

text \<open>An image is modelled by the bytes that \<open>image.save(name, 'JPEG')\<close> writes for it.\<close>

type_synonym image = string

text \<open>
  The exceptions the scripts tell apart: \<open>main.py\<close> has one handler for \<open>TypeError\<close>,
  one for \<open>AttributeError\<close> and one for every other \<open>Exception\<close>.
\<close>

datatype exn =
    TypeError string
  | AttributeError string
  | FileNotFoundError path
  | OtherError string

text \<open>\<open>str(e)\<close>, as the f-strings of the error messages format it.\<close>

fun exn_str :: "exn \<Rightarrow> string" where
  "exn_str (TypeError m) = m"
| "exn_str (AttributeError m) = m"
| "exn_str (FileNotFoundError p) = ''[Errno 2] No such file or directory: '' @ [CHR 0x27] @ p @ [CHR 0x27]"
| "exn_str (OtherError m) = m"

text \<open>
  The response object of the service. \<open>main.py\<close> reads its \<open>text\<close> attribute behind
  \<open>hasattr\<close>: the attribute is there, or it is missing (\<open>hasattr\<close> is \<open>False\<close>), or
  reading it raises something other than \<open>AttributeError\<close>, which \<open>hasattr\<close> lets through.
\<close>

datatype response =
    ResponseText string
  | ResponseNoText
  | ResponseTextRaises exn

datatype ui_event =
    StError string
  | StWrite string
  | StWriteResponse response
  | StSuccess string

record world =
  files :: "path \<rightharpoonup> string"
  api_key_env :: "string option"
  ui :: "ui_event list"
  requests :: "string list"

text \<open>
  \<open>files\<close> is the working directory, \<open>api_key_env\<close> the environment variable
  \<open>GEMINI_API_KEY\<close> after \<open>load_dotenv()\<close>, \<open>ui\<close> the messages shown so far and
  \<open>requests\<close> the prompts sent to the language-model service so far.
\<close>

definition st_error :: "string \<Rightarrow> world \<Rightarrow> world" where
  "st_error msg w = w\<lparr>ui := ui w @ [StError msg]\<rparr>"

definition st_write :: "string \<Rightarrow> world \<Rightarrow> world" where
  "st_write msg w = w\<lparr>ui := ui w @ [StWrite msg]\<rparr>"

definition st_success :: "string \<Rightarrow> world \<Rightarrow> world" where
  "st_success msg w = w\<lparr>ui := ui w @ [StSuccess msg]\<rparr>"

text \<open>\<open>open(p, 'w')\<close> followed by writes: the file is created or replaced.\<close>

definition write_file :: "path \<Rightarrow> string \<Rightarrow> world \<Rightarrow> world" where
  "write_file p text w = w\<lparr>files := (files w)(p \<mapsto> text)\<rparr>"

section \<open>The Python runtime functions the reformatter calls\<close>

definition LF :: char where "LF = CHR 0x0A"
definition CR :: char where "CR = CHR 0x0D"
definition TAB :: char where "TAB = CHR 0x09"
definition DQUOTE :: char where "DQUOTE = CHR 0x22"

text \<open>
  \<open>s.replace(old, new)\<close>: every non-overlapping occurrence of \<open>old\<close>, found from the left,
  is replaced by \<open>new\<close>; an empty \<open>old\<close> matches before every character and at the end.
\<close>

function replace :: "string \<Rightarrow> string \<Rightarrow> string \<Rightarrow> string" where
  "replace old new s =
     (if old = [] then new @ concat (map (\<lambda>c. c # new) s)
      else if s = [] then []
      else if take (length old) s = old then new @ replace old new (drop (length old) s)
      else hd s # replace old new (tl s))"
  by pat_completeness auto
termination
  by (relation "measure (\<lambda>(old, new, s). length s)") auto

declare replace.simps [simp del]

text \<open>
  \<open>open(p)\<close> reads in text mode with universal newlines: \<open>\r\n\<close> and a lone \<open>\r\<close>
  reach the program as \<open>\n\<close>.
\<close>

fun universal_newlines :: "string \<Rightarrow> string" where
  "universal_newlines [] = []"
| "universal_newlines [c] = [if c = CR then LF else c]"
| "universal_newlines (c # d # ds) =
     (if c = CR then (if d = LF then LF # universal_newlines ds
                      else LF # universal_newlines (d # ds))
      else c # universal_newlines (d # ds))"

text \<open>
  \<open>readlines()\<close>: the text cut after every line feed, each line keeping its line feed;
  text after the last line feed is a last line without one.
\<close>

fun split_lines :: "string \<Rightarrow> string \<Rightarrow> string list" where
  "split_lines cur [] = (if cur = [] then [] else [cur])"
| "split_lines cur (c # cs) =
     (if c = LF then (cur @ [c]) # split_lines [] cs else split_lines (cur @ [c]) cs)"

definition readlines :: "string \<Rightarrow> string list" where
  "readlines text = split_lines [] (universal_newlines text)"

definition open_readlines :: "world \<Rightarrow> path \<Rightarrow> exn + string list" where
  "open_readlines w p =
     (case files w p of
        None \<Rightarrow> Inl (FileNotFoundError p)
      | Some text \<Rightarrow> Inr (readlines text))"

text \<open>\<open>open(p, 'r')\<close> and \<open>read()\<close>: the whole text, through the same newline translation.\<close>

definition open_read :: "world \<Rightarrow> path \<Rightarrow> exn + string" where
  "open_read w p =
     (case files w p of
        None \<Rightarrow> Inl (FileNotFoundError p)
      | Some text \<Rightarrow> Inr (universal_newlines text))"

text \<open>
  Writing to a file opened with \<open>open(p, 'w')\<close>: opening empties it, every \<open>write\<close>
  appends. Line feeds are written as they are (the translation to \<open>os.linesep\<close> is the
  identity outside Windows, and \<open>main.py\<close> switches it off for the CSV file).
\<close>

definition append_file :: "path \<Rightarrow> string \<Rightarrow> world \<Rightarrow> world" where
  "append_file p text w =
     w\<lparr>files := (files w)(p \<mapsto> (case files w p of None \<Rightarrow> text | Some old \<Rightarrow> old @ text))\<rparr>"

text \<open>
  \<open>pathlib.Path(p).with_suffix(s)\<close> for a relative path without a trailing slash: the
  suffix of the last component starts at its last dot, unless that dot is its first or
  its last character.
\<close>

definition path_name :: "path \<Rightarrow> string" where
  "path_name p = rev (takeWhile (\<lambda>c. c \<noteq> CHR ''/'') (rev p))"

definition path_suffix :: "path \<Rightarrow> string" where
  "path_suffix p =
     (let name = path_name p;
          after_dot = rev (takeWhile (\<lambda>c. c \<noteq> CHR ''.'') (rev name))
      in if CHR ''.'' \<in> set name \<and> Suc (length after_dot) < length name \<and> after_dot \<noteq> []
         then CHR ''.'' # after_dot else [])"

definition with_suffix :: "path \<Rightarrow> string \<Rightarrow> path" where
  "with_suffix p s = take (length p - length (path_suffix p)) p @ s"

text \<open>\<open>str(n)\<close> of a natural number, as an f-string formats it.\<close>

definition digit_char :: "nat \<Rightarrow> char" where
  "digit_char d = ''0123456789'' ! d"

function str_nat :: "nat \<Rightarrow> string" where
  "str_nat n = (if n < 10 then [digit_char n] else str_nat (n div 10) @ [digit_char (n mod 10)])"
  by pat_completeness auto
termination
  by (relation "measure id") auto

declare str_nat.simps [simp del]

section \<open>The delegated libraries\<close>

text \<open>
  The scripts delegate every substantial step to a library or a service. What these
  return is not decided by the repository; the model takes it as a parameter, one field
  for each call: \<open>ConfigParser.get\<close> on \<open>config.ini\<close>, \<open>pdf2image.convert_from_bytes\<close>
  (with the first and last page, when given), \<open>pytesseract.image_to_string\<close> (with the
  engine path and the language, when given), \<open>genai.configure\<close>, the constructor
  \<open>genai.GenerativeModel\<close>, the calls \<open>model.generate\<close> of \<open>pdf2csv.py\<close> and
  \<open>model.generate_content\<close> of \<open>main.py\<close>, and the formatting of a list of strings in
  an f-string. A call either raises or returns.
\<close>

record externals =
  config_get :: "string \<Rightarrow> string \<Rightarrow> exn + string"
  convert_from_bytes :: "string \<Rightarrow> int option \<Rightarrow> int option \<Rightarrow> string \<Rightarrow> string \<Rightarrow> exn + image list"
  image_to_string :: "string \<Rightarrow> image \<Rightarrow> string option \<Rightarrow> exn + string"
  configure :: "string \<Rightarrow> exn option"
  generative_model :: "string \<Rightarrow> exn option"
  generate :: "string \<Rightarrow> exn + response"
  generate_content :: "string \<Rightarrow> exn + response"
  format_list :: "string list \<Rightarrow> string"

text \<open>A call of the language-model service is recorded in \<open>requests\<close>, whatever it returns.\<close>

definition call_service ::
  "(string \<Rightarrow> exn + response) \<Rightarrow> string \<Rightarrow> world \<Rightarrow> (exn + response) \<times> world" where
  "call_service service prompt w = (service prompt, w\<lparr>requests := requests w @ [prompt]\<rparr>)"

definition load_config :: "externals \<Rightarrow> exn + string \<times> string" where
  "load_config ext =
     (case config_get ext ''settings'' ''PopplerPath'' of
        Inl e \<Rightarrow> Inl e
      | Inr popplerLoc \<Rightarrow>
          (case config_get ext ''settings'' ''TesseractPath'' of
             Inl e \<Rightarrow> Inl e
           | Inr tesseractLoc \<Rightarrow> Inr (popplerLoc, tesseractLoc)))"

section \<open>Step 1: PDF to JPG\<close>

text \<open>
  \<open>pdf2csv.py\<close>: the loop over \<open>enumerate(images)\<close>, with the index \<open>i\<close>, the list
  \<open>jpg_files\<close> built so far and the world.
\<close>

fun pdf_to_jpg_loop :: "nat \<Rightarrow> image list \<Rightarrow> path list \<Rightarrow> world \<Rightarrow> path list \<times> world" where
  "pdf_to_jpg_loop i [] jpg_files w = (jpg_files, w)"
| "pdf_to_jpg_loop i (img # images) jpg_files w =
     (let img_filename = ''page_'' @ str_nat (i + 1) @ ''.jpg'';
          w1 = write_file img_filename img w;
          w2 = st_write (''Converted to JPG...Saving to: '' @ img_filename) w1
      in pdf_to_jpg_loop (i + 1) images (jpg_files @ [img_filename]) w2)"

definition pdf_to_jpg ::
  "externals \<Rightarrow> string \<Rightarrow> int \<Rightarrow> int \<Rightarrow> string \<Rightarrow> string \<Rightarrow> world \<Rightarrow> (exn + path list) \<times> world" where
  "pdf_to_jpg ext pdf_bytes firstpage lastpage userpw popplerLoc w =
     (case convert_from_bytes ext pdf_bytes (Some firstpage) (Some lastpage) userpw popplerLoc of
        Inl e \<Rightarrow> (Inl e, w)
      | Inr images \<Rightarrow>
          (case pdf_to_jpg_loop 0 images [] w of (jpg_files, w') \<Rightarrow> (Inr jpg_files, w')))"

text \<open>\<open>main.py\<close>: no page range, and no message for a saved page.\<close>

fun main_py_pdf_to_jpg_loop ::
  "nat \<Rightarrow> image list \<Rightarrow> path list \<Rightarrow> world \<Rightarrow> path list \<times> world" where
  "main_py_pdf_to_jpg_loop i [] jpg_files w = (jpg_files, w)"
| "main_py_pdf_to_jpg_loop i (img # images) jpg_files w =
     (let img_filename = ''page_'' @ str_nat (i + 1) @ ''.jpg'';
          w1 = write_file img_filename img w
      in main_py_pdf_to_jpg_loop (i + 1) images (jpg_files @ [img_filename]) w1)"

definition main_py_pdf_to_jpg ::
  "externals \<Rightarrow> string \<Rightarrow> string \<Rightarrow> string \<Rightarrow> world \<Rightarrow> (exn + path list) \<times> world" where
  "main_py_pdf_to_jpg ext pdf_bytes userpw popplerLoc w =
     (case convert_from_bytes ext pdf_bytes None None userpw popplerLoc of
        Inl e \<Rightarrow> (Inl e, w)
      | Inr images \<Rightarrow>
          (case main_py_pdf_to_jpg_loop 0 images [] w of (jpg_files, w') \<Rightarrow> (Inr jpg_files, w')))"

text \<open>The name \<open>page_<n>.jpg\<close> of the specification.\<close>

definition page_image_name :: "nat \<Rightarrow> path" where
  "page_image_name n = ''page_'' @ str_nat n @ ''.jpg''"

section \<open>Step 2: JPG to TXT\<close>

definition image_open :: "world \<Rightarrow> path \<Rightarrow> exn + image" where
  "image_open w p =
     (case files w p of None \<Rightarrow> Inl (FileNotFoundError p) | Some img \<Rightarrow> Inr img)"

definition save_to_file_as_txt :: "path \<Rightarrow> string \<Rightarrow> world \<Rightarrow> path \<times> world" where
  "save_to_file_as_txt filename text w =
     (let filenamenew = with_suffix filename ''.txt'';
          w1 = st_write (''Converted to TXT...Saving to: '' @ filenamenew) w;
          w2 = write_file filenamenew text w1
      in (filenamenew, w2))"

fun jpg_to_txt_loop ::
  "externals \<Rightarrow> string \<Rightarrow> path list \<Rightarrow> path list \<Rightarrow> world \<Rightarrow> (exn + path list) \<times> world" where
  "jpg_to_txt_loop ext tesseractLoc [] txt_files w = (Inr txt_files, w)"
| "jpg_to_txt_loop ext tesseractLoc (jpg_file # jpg_files) txt_files w =
     (case image_open w jpg_file of
        Inl e \<Rightarrow> (Inl e, w)
      | Inr img \<Rightarrow>
          (case image_to_string ext tesseractLoc img None of
             Inl e \<Rightarrow> (Inl e, w)
           | Inr text \<Rightarrow>
               (case save_to_file_as_txt jpg_file text w of
                  (txt_file, w') \<Rightarrow>
                    jpg_to_txt_loop ext tesseractLoc jpg_files (txt_files @ [txt_file]) w')))"

definition jpg_to_txt ::
  "externals \<Rightarrow> string \<Rightarrow> path list \<Rightarrow> world \<Rightarrow> (exn + path list) \<times> world" where
  "jpg_to_txt ext tesseractLoc jpg_files w = jpg_to_txt_loop ext tesseractLoc jpg_files [] w"

text \<open>\<open>main.py\<close>: with the language, and no message for a saved text.\<close>

definition main_py_save_to_file_as_txt :: "path \<Rightarrow> string \<Rightarrow> world \<Rightarrow> path \<times> world" where
  "main_py_save_to_file_as_txt filename text w =
     (let filenamenew = with_suffix filename ''.txt'';
          w1 = write_file filenamenew text w
      in (filenamenew, w1))"

fun main_py_jpg_to_txt_loop ::
  "externals \<Rightarrow> string \<Rightarrow> string \<Rightarrow> path list \<Rightarrow> path list \<Rightarrow> world
     \<Rightarrow> (exn + path list) \<times> world" where
  "main_py_jpg_to_txt_loop ext tesseractLoc language [] txt_files w = (Inr txt_files, w)"
| "main_py_jpg_to_txt_loop ext tesseractLoc language (jpg_file # jpg_files) txt_files w =
     (case image_open w jpg_file of
        Inl e \<Rightarrow> (Inl e, w)
      | Inr img \<Rightarrow>
          (case image_to_string ext tesseractLoc img (Some language) of
             Inl e \<Rightarrow> (Inl e, w)
           | Inr text \<Rightarrow>
               (case main_py_save_to_file_as_txt jpg_file text w of
                  (txt_file, w') \<Rightarrow>
                    main_py_jpg_to_txt_loop ext tesseractLoc language jpg_files
                      (txt_files @ [txt_file]) w')))"

definition main_py_jpg_to_txt ::
  "externals \<Rightarrow> string \<Rightarrow> path list \<Rightarrow> string \<Rightarrow> world \<Rightarrow> (exn + path list) \<times> world" where
  "main_py_jpg_to_txt ext tesseractLoc jpg_files language w =
     main_py_jpg_to_txt_loop ext tesseractLoc language jpg_files [] w"

section \<open>Step 3: TXT to CSV\<close>

text \<open>
  The body of the inner loop of \<open>txt_to_csv\<close> (lines 80 to 82 of \<open>main.py\<close>, 65 to 67 of
  \<open>pdf2csv.py\<close>; the two differ in the names of the variables only).
\<close>

definition convert_line :: "string \<Rightarrow> string" where
  "convert_line line =
     (let without_comma = replace '','' [] line;
          with_added_commas = replace '' '' '','' without_comma;
          cleaned_line = replace [DQUOTE] [] with_added_commas
      in cleaned_line)"

fun convert_lines :: "string list \<Rightarrow> string list \<Rightarrow> string list" where
  "convert_lines converted_list [] = converted_list"
| "convert_lines converted_list (line # lines) =
     convert_lines (converted_list @ [convert_line line]) lines"

fun txt_to_csv_loop :: "world \<Rightarrow> string list \<Rightarrow> path list \<Rightarrow> exn + string list" where
  "txt_to_csv_loop w converted_list [] = Inr converted_list"
| "txt_to_csv_loop w converted_list (txt_file # txt_files) =
     (case open_readlines w txt_file of
        Inl e \<Rightarrow> Inl e
      | Inr lines \<Rightarrow> txt_to_csv_loop w (convert_lines converted_list lines) txt_files)"

definition txt_to_csv :: "world \<Rightarrow> path list \<Rightarrow> exn + string list" where
  "txt_to_csv w txt_files = txt_to_csv_loop w [] txt_files"

text \<open>The transformation in the words of the specification, step by step.\<close>

definition remove_char :: "char \<Rightarrow> string \<Rightarrow> string" where
  "remove_char a s = filter (\<lambda>c. c \<noteq> a) s"

definition spaces_to_separators :: "string \<Rightarrow> string" where
  "spaces_to_separators s = map (\<lambda>c. if c = CHR '' '' then CHR '','' else c) s"

definition spec_line :: "string \<Rightarrow> string" where
  "spec_line line = remove_char DQUOTE (spaces_to_separators (remove_char CHR '','' line))"

text \<open>
  \<open>save_as_csv\<close> of \<open>pdf2csv.py\<close> opens the file and writes the entries one by one;
  that of \<open>main.py\<close> writes them with one \<open>writelines\<close>.
\<close>

fun write_entries :: "path \<Rightarrow> string list \<Rightarrow> world \<Rightarrow> world" where
  "write_entries p [] w = w"
| "write_entries p (entry # data) w = write_entries p data (append_file p entry w)"

definition save_as_csv :: "string list \<Rightarrow> string \<Rightarrow> world \<Rightarrow> path \<times> world" where
  "save_as_csv data filename w =
     (let filename' = with_suffix filename ''.csv'';
          w1 = st_write (''Converted to CSV...Saving to: '' @ filename') w;
          w2 = write_file filename' [] w1;
          w3 = write_entries filename' data w2
      in (filename', w3))"

definition main_py_save_as_csv :: "string list \<Rightarrow> string \<Rightarrow> world \<Rightarrow> path \<times> world" where
  "main_py_save_as_csv data filename w =
     (let filename' = with_suffix filename ''.csv'';
          w1 = write_file filename' (concat data) w
      in (filename', w1))"

section \<open>The analysis step\<close>

definition get_api_key :: "world \<Rightarrow> string option" where
  "get_api_key w = api_key_env w"

text \<open>The prompts, as the f-strings of the two scripts build them.\<close>

definition analysis_prompt :: "string \<Rightarrow> string" where
  "analysis_prompt csv_content =
     ''Analyze the following CSV data and extract details along with the selected checkboxes:''
     @ [LF] @ csv_content"

definition main_py_analysis_prompt :: "externals \<Rightarrow> string list \<Rightarrow> string" where
  "main_py_analysis_prompt ext csv_content =
     ''just convert the text errors and display it in csv'' @ [LF] @ format_list ext csv_content"

text \<open>
  \<open>pdf2csv.py\<close>. \<open>not api_key\<close> holds for \<open>None\<close> and for the empty string. The function
  returns \<open>None\<close> (here \<open>Inr None\<close>) or the response; an exception of \<open>genai.configure\<close>
  or of the constructor of the model, which are called outside the \<open>try\<close>, leaves the
  function (\<open>Inl\<close>).
\<close>

definition analyze_csv_with_gemini ::
  "externals \<Rightarrow> string \<Rightarrow> world \<Rightarrow> (exn + response option) \<times> world" where
  "analyze_csv_with_gemini ext csv_content w =
     (let not_found =
            (Inr None,
             st_error ''API key not found. Please set the GEMINI_API_KEY environment variable.'' w)
      in case get_api_key w of
           None \<Rightarrow> not_found
         | Some api_key \<Rightarrow>
             if api_key = [] then not_found
             else
               (case configure ext api_key of
                  Some e \<Rightarrow> (Inl e, w)
                | None \<Rightarrow>
                    (case generative_model ext ''gemini-1.5-flash'' of
                       Some e \<Rightarrow> (Inl e, w)
                     | None \<Rightarrow>
                         (let prompt = analysis_prompt csv_content
                          in case call_service (generate ext) prompt w of
                               (Inr response, w1) \<Rightarrow> (Inr (Some response), w1)
                             | (Inl e, w1) \<Rightarrow>
                                 (Inr None,
                                  st_error
                                    (''An error occurred while analyzing the CSV with Gemini AI: ''
                                     @ exn_str e) w1)))))"

text \<open>
  \<open>main.py\<close>. \<open>response.text if hasattr(response, 'text') else 'No response text found'\<close>:
  \<open>hasattr\<close> answers \<open>False\<close> when reading the attribute raises \<open>AttributeError\<close> and
  lets every other exception through.
\<close>

definition response_text_of :: "response \<Rightarrow> exn + string" where
  "response_text_of response =
     (case response of
        ResponseText t \<Rightarrow> Inr t
      | ResponseNoText \<Rightarrow> Inr ''No response text found''
      | ResponseTextRaises (AttributeError m) \<Rightarrow> Inr ''No response text found''
      | ResponseTextRaises e \<Rightarrow> Inl e)"

text \<open>The body of the \<open>try\<close>: it ends with the name of the file written or with an exception.\<close>

definition main_py_analyze_try ::
  "externals \<Rightarrow> string list \<Rightarrow> path \<Rightarrow> world \<Rightarrow> (exn + path) \<times> world" where
  "main_py_analyze_try ext csv_content output_filename w =
     (let prompt = main_py_analysis_prompt ext csv_content
      in case call_service (generate_content ext) prompt w of
           (Inl e, w1) \<Rightarrow> (Inl e, w1)
         | (Inr response, w1) \<Rightarrow>
             (case response_text_of response of
                Inl e \<Rightarrow> (Inl e, w1)
              | Inr response_text \<Rightarrow>
                  (let w2 = st_write response_text w1;
                       w3 = write_file output_filename response_text w2;
                       w4 = st_write (''Saved Gemini analysis to CSV: '' @ output_filename) w3
                   in (Inr output_filename, w4))))"

text \<open>The \<open>try\<close> with its three handlers, in the order of the source.\<close>

definition main_py_analyze_csv_with_gemini ::
  "externals \<Rightarrow> string list \<Rightarrow> path \<Rightarrow> world \<Rightarrow> string \<times> world" where
  "main_py_analyze_csv_with_gemini ext csv_content output_filename w =
     (case main_py_analyze_try ext csv_content output_filename w of
        (Inr written, w') \<Rightarrow> (written, w')
      | (Inl (TypeError m), w') \<Rightarrow>
          (''A TypeError occurred.'', st_error (''TypeError: '' @ m) w')
      | (Inl (AttributeError m), w') \<Rightarrow>
          (''An AttributeError occurred.'', st_error (''AttributeError: '' @ m) w')
      | (Inl e, w') \<Rightarrow>
          (''An unexpected error occurred.'',
           st_error (''An unexpected error occurred: '' @ exn_str e) w'))"

section \<open>The scripts\<close>

text \<open>
  Both \<open>main\<close> functions are modelled from the point where a PDF has been uploaded and
  \<open>Convert\<close> has been pressed; the static texts of the page are left out.

  \<open>pdf2csv.py\<close>: the four calls from \<open>load_config\<close> to \<open>save_as_csv\<close>. There is no
  \<open>try\<close> around them; an exception leaves \<open>main\<close>, and what was written stays written.
\<close>

definition conversion ::
  "externals \<Rightarrow> string \<Rightarrow> string \<Rightarrow> int \<Rightarrow> int \<Rightarrow> world
     \<Rightarrow> (exn + string list \<times> path) \<times> world" where
  "conversion ext pdf_bytes userpw first_page last_page w =
     (case load_config ext of
        Inl e \<Rightarrow> (Inl e, w)
      | Inr (popplerLoc, tesseractLoc) \<Rightarrow>
          (case pdf_to_jpg ext pdf_bytes first_page last_page userpw popplerLoc w of
             (Inl e, w1) \<Rightarrow> (Inl e, w1)
           | (Inr jpg_files, w1) \<Rightarrow>
               (case jpg_to_txt ext tesseractLoc jpg_files w1 of
                  (Inl e, w2) \<Rightarrow> (Inl e, w2)
                | (Inr txt_files, w2) \<Rightarrow>
                    (case txt_to_csv w2 txt_files of
                       Inl e \<Rightarrow> (Inl e, w2)
                     | Inr csv_data \<Rightarrow>
                         (case save_as_csv csv_data ''output'' w2 of
                            (csv_filename, w3) \<Rightarrow> (Inr (csv_data, csv_filename), w3))))))"

definition pdf2csv_main ::
  "externals \<Rightarrow> string \<Rightarrow> string \<Rightarrow> int \<Rightarrow> int \<Rightarrow> world \<Rightarrow> (exn + unit) \<times> world" where
  "pdf2csv_main ext pdf_bytes userpw first_page last_page w =
     (case conversion ext pdf_bytes userpw first_page last_page w of
        (Inl e, w1) \<Rightarrow> (Inl e, w1)
      | (Inr (csv_data, csv_filename), w1) \<Rightarrow>
          (let w2 = st_success ''Conversion completed successfully'' w1
           in case open_read w2 csv_filename of
                Inl e \<Rightarrow> (Inl e, w2)
              | Inr csv_content \<Rightarrow>
                  (let w3 = st_write ''CSV Data:'' w2;
                       w4 = st_write csv_content w3;
                       w5 = st_write ''Analyzing CSV with Gemini AI...'' w4
                   in case analyze_csv_with_gemini ext csv_content w5 of
                        (Inl e, w6) \<Rightarrow> (Inl e, w6)
                      | (Inr None, w6) \<Rightarrow> (Inr (), w6)
                      | (Inr (Some analysis_result), w6) \<Rightarrow>
                          (let w7 = st_write ''Analysis Result:'' w6;
                               w8 = w7\<lparr>ui := ui w7 @ [StWriteResponse analysis_result]\<rparr>
                           in (Inr (), w8)))))"

text \<open>\<open>main.py\<close>: the block under \<open>st.spinner\<close>.\<close>

definition main_py_conversion ::
  "externals \<Rightarrow> string \<Rightarrow> string \<Rightarrow> string \<Rightarrow> world
     \<Rightarrow> (exn + string list \<times> path) \<times> world" where
  "main_py_conversion ext pdf_bytes userpw language w =
     (case load_config ext of
        Inl e \<Rightarrow> (Inl e, w)
      | Inr (popplerLoc, tesseractLoc) \<Rightarrow>
          (case main_py_pdf_to_jpg ext pdf_bytes userpw popplerLoc w of
             (Inl e, w1) \<Rightarrow> (Inl e, w1)
           | (Inr jpg_files, w1) \<Rightarrow>
               (case main_py_jpg_to_txt ext tesseractLoc jpg_files language w1 of
                  (Inl e, w2) \<Rightarrow> (Inl e, w2)
                | (Inr txt_files, w2) \<Rightarrow>
                    (case txt_to_csv w2 txt_files of
                       Inl e \<Rightarrow> (Inl e, w2)
                     | Inr csv_data \<Rightarrow>
                         (case main_py_save_as_csv csv_data ''output'' w2 of
                            (csv_filename, w3) \<Rightarrow> (Inr (csv_data, csv_filename), w3))))))"

text \<open>The \<open>try\<close> of \<open>main\<close> and its handler, which reports every exception.\<close>

definition main_py_main_try ::
  "externals \<Rightarrow> string \<Rightarrow> string \<Rightarrow> string \<Rightarrow> world \<Rightarrow> (exn + unit) \<times> world" where
  "main_py_main_try ext pdf_bytes userpw language w =
     (case main_py_conversion ext pdf_bytes userpw language w of
        (Inl e, w1) \<Rightarrow> (Inl e, w1)
      | (Inr (csv_data, csv_filename), w1) \<Rightarrow>
          (let w2 = st_success ''Conversion completed successfully'' w1;
               analysis_csv_filename = ''gemini_analysis_output.csv''
           in case main_py_analyze_csv_with_gemini ext csv_data analysis_csv_filename w2 of
                (result, w3) \<Rightarrow>
                  (Inr (), st_write (''Analysis saved to: '' @ analysis_csv_filename) w3)))"

definition main_py_main :: "externals \<Rightarrow> string \<Rightarrow> string \<Rightarrow> string \<Rightarrow> world \<Rightarrow> world" where
  "main_py_main ext pdf_bytes userpw language w =
     (case main_py_main_try ext pdf_bytes userpw language w of
        (Inr u, w') \<Rightarrow> w'
      | (Inl e, w') \<Rightarrow> st_error (''An error occurred during conversion: '' @ exn_str e) w')"

text \<open>
  The script \<open>main.py\<close> from its first line: the key is read and the service is set up
  before \<open>main\<close> is called, and \<open>st.stop()\<close> ends the run.
\<close>

definition main_py_script :: "externals \<Rightarrow> string \<Rightarrow> string \<Rightarrow> string \<Rightarrow> world \<Rightarrow> world" where
  "main_py_script ext pdf_bytes userpw language w =
     (case api_key_env w of
        None \<Rightarrow> st_error ''API key not found. Please check your .env file.'' w
      | Some api_key \<Rightarrow>
          (case configure ext api_key of
             Some e \<Rightarrow> st_error (''Error configuring Gemini API: '' @ exn_str e) w
           | None \<Rightarrow>
               (case generative_model ext ''gemini-1.5-flash'' of
                  Some e \<Rightarrow> st_error (''Error initializing Gemini model: '' @ exn_str e) w
                | None \<Rightarrow> main_py_main ext pdf_bytes userpw language w)))"

text \<open>
  The output in the words of the claim about white space. One character of the text as
  read gives one comma when it is a space, nothing when it is a comma or a double quote,
  and itself otherwise; the text as read is the text of the file with \<open>\r\n\<close> and then
  every remaining \<open>\r\<close> replaced by \<open>\n\<close>.
\<close>

definition separator_for :: "char \<Rightarrow> string" where
  "separator_for c =
     (if c = CHR '' '' then '',''
      else if c = CHR '','' \<or> c = DQUOTE then []
      else [c])"

definition separated :: "string \<Rightarrow> string" where
  "separated s = concat (map separator_for s)"

definition newlines_as_read :: "string \<Rightarrow> string" where
  "newlines_as_read text = replace [CR] [LF] (replace [CR, LF] [LF] text)"

definition reformatted :: "string \<Rightarrow> string" where
  "reformatted text = separated (newlines_as_read text)"

text \<open>A line ends with a line feed.\<close>

definition ends_with_newline :: "string \<Rightarrow> bool" where
  "ends_with_newline s = (s \<noteq> [] \<and> last s = LF)"

text \<open>
  Two worlds belong to one session when the key and the requests sent are the same in
  both: no step of the conversion touches the environment or the network.
\<close>

definition same_session :: "world \<Rightarrow> world \<Rightarrow> bool" where
  "same_session w w' = (api_key_env w' = api_key_env w \<and> requests w' = requests w)"

section \<open>Sample inputs\<close>

definition empty_world :: world where
  "empty_world = \<lparr>files = Map.empty, api_key_env = None, ui = [], requests = []\<rparr>"

text \<open>
  Two pages of recognised text: the first with a comma, quoted words, a run of two spaces
  and a Windows line ending; the second without a final line feed.
\<close>

definition sample_page_1 :: string where
  "sample_page_1 =
     ''Name, '' @ [DQUOTE] @ ''Age'' @ [DQUOTE, LF] @ ''John  Doe 30'' @ [CR, LF]"

definition sample_page_2 :: string where
  "sample_page_2 = ''x y''"

definition sample_world :: world where
  "sample_world =
     write_file ''page_2.txt'' sample_page_2 (write_file ''page_1.txt'' sample_page_1 empty_world)"

text \<open>
  Libraries for the sample runs: a rasterizer that returns three page images, an OCR
  engine that answers with a line for each image, and a language-model service whose
  calls fail.
\<close>

definition sample_externals :: externals where
  "sample_externals =
     \<lparr>config_get = (\<lambda>section key. Inr (''/opt/'' @ key)),
      convert_from_bytes = (\<lambda>pdf_bytes first_page last_page userpw poppler_path.
         Inr [''first image'', ''second image'', ''third image'']),
      image_to_string = (\<lambda>tesseract_cmd img lang. Inr (''Text of, '' @ img @ [LF])),
      configure = (\<lambda>api_key. None),
      generative_model = (\<lambda>model_name. None),
      generate = (\<lambda>prompt. Inl (AttributeError ''no attribute generate'')),
      generate_content = (\<lambda>prompt. Inl (OtherError ''503 Service Unavailable'')),
      format_list = concat\<rparr>"

text \<open>What the reformatter returns for the three pages of the sample libraries.\<close>

definition sample_csv_data :: "string list" where
  "sample_csv_data =
     [''Text,of,first,image'' @ [LF], ''Text,of,second,image'' @ [LF],
      ''Text,of,third,image'' @ [LF]]"

definition sample_key_world :: world where
  "sample_key_world = empty_world\<lparr>api_key_env := Some ''sample-key''\<rparr>"

section \<open>Facts about the runtime functions\<close>

lemma replace_char:
  "replace [a] new s = concat (map (\<lambda>c. if c = a then new else [c]) s)"
proof (induction s)
  case Nil
  show ?case by (simp add: replace.simps)
next
  case (Cons c s)
  show ?case
  proof (cases "c = a")
    case True
    then show ?thesis using Cons by (subst replace.simps) simp
  next
    case False
    then show ?thesis using Cons by (subst replace.simps) simp
  qed
qed

lemma replace_char_remove: "replace [a] [] s = remove_char a s"
  by (induction s) (simp_all add: replace_char remove_char_def)

lemma replace_char_char: "replace [a] [b] s = map (\<lambda>c. if c = a then b else c) s"
  by (induction s) (simp_all add: replace_char)

lemma convert_line_spec: "convert_line line = spec_line line"
  by (simp add: convert_line_def spec_line_def replace_char_remove replace_char_char
      spaces_to_separators_def)

lemma convert_lines_map: "convert_lines acc lines = acc @ map convert_line lines"
  by (induction lines arbitrary: acc) simp_all

lemma txt_to_csv_loop_readable:
  "map (files w) txt_files = map Some texts \<Longrightarrow>
   txt_to_csv_loop w acc txt_files =
     Inr (acc @ concat (map (\<lambda>t. map convert_line (readlines t)) texts))"
proof (induction txt_files arbitrary: acc texts)
  case Nil
  then show ?case by simp
next
  case (Cons f fs)
  then obtain t ts where texts: "texts = t # ts" and f: "files w f = Some t"
    and fs: "map (files w) fs = map Some ts"
    by (cases texts) auto
  show ?case
    by (simp add: texts f open_readlines_def convert_lines_map Cons.IH [OF fs])
qed

lemma txt_to_csv_readable:
  "map (files w) txt_files = map Some texts \<Longrightarrow>
   txt_to_csv w txt_files = Inr (concat (map (\<lambda>t. map convert_line (readlines t)) texts))"
  by (simp add: txt_to_csv_def txt_to_csv_loop_readable)

lemma txt_to_csv_loop_Inr:
  "txt_to_csv_loop w acc txt_files = Inr out \<Longrightarrow>
   \<exists>texts. map (files w) txt_files = map Some texts"
proof (induction txt_files arbitrary: acc)
  case Nil
  then show ?case by simp
next
  case (Cons f fs)
  from Cons.prems obtain t where f: "files w f = Some t"
    by (auto simp: open_readlines_def split: option.splits)
  with Cons.prems have "txt_to_csv_loop w (convert_lines acc (readlines t)) fs = Inr out"
    by (simp add: open_readlines_def)
  from Cons.IH [OF this] obtain ts where "map (files w) fs = map Some ts" ..
  with f have "map (files w) (f # fs) = map Some (t # ts)" by simp
  then show ?case ..
qed

lemma split_lines_shape:
  "LF \<notin> set cur \<Longrightarrow> l \<in> set (split_lines cur s) \<Longrightarrow> l \<noteq> [] \<and> LF \<notin> set (butlast l)"
  by (induction cur s rule: split_lines.induct) (auto split: if_splits dest: in_set_butlastD)

lemma readlines_shape: "l \<in> set (readlines text) \<Longrightarrow> l \<noteq> [] \<and> LF \<notin> set (butlast l)"
  unfolding readlines_def by (rule split_lines_shape) simp_all

section \<open>Facts about the transformation of one line\<close>

lemmas line_defs =
  convert_line_spec spec_line_def remove_char_def spaces_to_separators_def DQUOTE_def

lemma set_convert_line:
  "set (convert_line l) =
     (set l - {CHR '','', CHR '' '', DQUOTE}) \<union> (if CHR '' '' \<in> set l then {CHR '',''} else {})"
  by (auto simp add: line_defs)

lemma convert_line_Nil: "convert_line [] = []"
  by (simp add: line_defs)

lemma convert_line_append: "convert_line (xs @ ys) = convert_line xs @ convert_line ys"
  by (simp add: line_defs)

lemma convert_line_spaces: "convert_line (replicate k CHR '' '') = replicate k CHR '',''"
  by (induction k) (simp_all add: line_defs)

lemma convert_line_Cons_other:
  "c \<noteq> CHR '','' \<Longrightarrow> c \<noteq> CHR '' '' \<Longrightarrow> c \<noteq> DQUOTE \<Longrightarrow>
   convert_line (c # ys) = c # convert_line ys"
  by (simp add: line_defs)

lemma convert_line_id:
  "CHR '','' \<notin> set line \<Longrightarrow> DQUOTE \<notin> set line \<Longrightarrow> CHR '' '' \<notin> set line \<Longrightarrow>
   convert_line line = line"
  by (induction line) (auto simp add: line_defs)

lemma convert_line_ends:
  assumes "l \<noteq> []" "LF \<notin> set (butlast l)"
  shows "ends_with_newline (convert_line l) = ends_with_newline l"
proof (cases "last l = LF")
  case True
  have "convert_line l = convert_line (butlast l @ [last l])" using assms by simp
  also have "\<dots> = convert_line (butlast l) @ [LF]"
    using True
    by (simp add: convert_line_append convert_line_Cons_other convert_line_Nil LF_def DQUOTE_def)
  finally show ?thesis using True assms by (simp add: ends_with_newline_def)
next
  case False
  have "set l = set (butlast l) \<union> {last l}"
    using assms(1) by (metis Un_insert_right append_butlast_last_id list.set(2) set_append
        sup_bot.right_neutral list.set(1))
  with False assms have "LF \<notin> set l" by auto
  then have "LF \<notin> set (convert_line l)"
    by (auto simp: set_convert_line LF_def split: if_splits)
  then have "\<not> ends_with_newline (convert_line l)"
    unfolding ends_with_newline_def by (metis last_in_set)
  with False show ?thesis by (simp add: ends_with_newline_def)
qed

section \<open>Facts about the text as read and the joined output\<close>

lemma CR_neq_LF: "CR \<noteq> LF"
  by (simp add: CR_def LF_def)

lemma replace_crlf_Nil: "replace [CR, LF] [LF] [] = []"
  by (subst replace.simps) simp

lemma replace_crlf_single: "replace [CR, LF] [LF] [c] = [c]"
  by (subst replace.simps) (simp add: replace_crlf_Nil)

lemma replace_crlf_Cons2:
  "replace [CR, LF] [LF] (c # d # ds) =
     (if c = CR \<and> d = LF then LF # replace [CR, LF] [LF] ds
      else c # replace [CR, LF] [LF] (d # ds))"
  by (subst replace.simps) auto

lemma newlines_as_read_eq: "newlines_as_read s = universal_newlines s"
  unfolding newlines_as_read_def
proof (induction s rule: universal_newlines.induct)
  case 1
  show ?case by (simp add: replace_crlf_Nil replace_char_char)
next
  case (2 c)
  show ?case by (simp add: replace_crlf_single replace_char_char)
next
  case (3 c d ds)
  then show ?case
    using CR_neq_LF by (auto simp add: replace_crlf_Cons2 replace_char_char)
qed

lemma convert_line_separated: "convert_line s = separated s"
  by (induction s) (simp_all add: line_defs separated_def separator_for_def)

lemma concat_split_lines: "concat (split_lines cur s) = cur @ s"
  by (induction cur s rule: split_lines.induct) simp_all

lemma concat_map_convert_line: "concat (map convert_line ls) = convert_line (concat ls)"
  by (induction ls) (simp_all add: convert_line_Nil convert_line_append)

lemma universal_newlines_append:
  "\<not> (xs \<noteq> [] \<and> last xs = CR \<and> zs \<noteq> [] \<and> hd zs = LF) \<Longrightarrow>
   universal_newlines (xs @ zs) = universal_newlines xs @ universal_newlines zs"
proof (induction xs rule: universal_newlines.induct)
  case 1
  show ?case by simp
next
  case (2 c)
  then show ?case by (cases zs) auto
next
  case (3 c d ds)
  then show ?case by (auto split: if_splits)
qed

lemma universal_newlines_no_CR: "CR \<notin> set (universal_newlines s)"
  using CR_neq_LF by (induction s rule: universal_newlines.induct) auto

lemma universal_newlines_id: "CR \<notin> set s \<Longrightarrow> universal_newlines s = s"
  by (induction s rule: universal_newlines.induct) auto

lemma universal_newlines_spaces:
  "universal_newlines (replicate k CHR '' '' @ ys) = replicate k CHR '' '' @ universal_newlines ys"
proof (induction k)
  case 0
  show ?case by simp
next
  case (Suc k)
  have "universal_newlines ([CHR '' ''] @ (replicate k CHR '' '' @ ys))
      = universal_newlines [CHR '' ''] @ universal_newlines (replicate k CHR '' '' @ ys)"
    by (rule universal_newlines_append) (simp add: CR_def)
  with Suc show ?case by (simp add: CR_def)
qed

lemma last_not_LF: "LF \<notin> set cur \<Longrightarrow> cur \<noteq> [] \<Longrightarrow> last cur \<noteq> LF"
  by (metis last_in_set)

lemma length_split_lines:
  "LF \<notin> set cur \<Longrightarrow>
   length (split_lines cur s)
     = length (filter (\<lambda>c. c = LF) s)
       + (if cur @ s = [] \<or> last (cur @ s) = LF then 0 else 1)"
  by (induction cur s rule: split_lines.induct) (auto simp add: last_not_LF)

lemma split_lines_butlast:
  "list_all ends_with_newline (butlast (split_lines cur s))"
  by (induction cur s rule: split_lines.induct) (auto simp add: ends_with_newline_def)

lemma universal_newlines_Cons_other: "c \<noteq> CR \<Longrightarrow> universal_newlines (c # ys) = c # universal_newlines ys"
  by (cases ys) simp_all

lemma universal_newlines_CR:
  "ys = [] \<or> hd ys \<noteq> LF \<Longrightarrow> universal_newlines (CR # ys) = LF # universal_newlines ys"
  by (cases ys) auto

lemma universal_newlines_CRLF: "universal_newlines (CR # LF # ys) = LF # universal_newlines ys"
  by simp

lemma separated_append: "separated (xs @ ys) = separated xs @ separated ys"
  by (simp add: separated_def)

lemma separated_spaces: "separated (replicate k CHR '' '') = replicate k CHR '',''"
  by (induction k) (simp_all add: separated_def separator_for_def)

lemma separated_Cons_other:
  "c \<noteq> CHR '' '' \<Longrightarrow> c \<noteq> CHR '','' \<Longrightarrow> c \<noteq> DQUOTE \<Longrightarrow> separated (c # ys) = c # separated ys"
  by (simp add: separated_def separator_for_def)

lemma set_separated: "set (separated s) \<subseteq> set s \<union> {CHR '',''}"
  by (auto simp add: separated_def separator_for_def split: if_splits)

lemma reformatted_eq: "reformatted s = separated (universal_newlines s)"
  by (simp add: reformatted_def newlines_as_read_eq)

lemma reformatted_append:
  "\<not> (xs \<noteq> [] \<and> last xs = CR \<and> zs \<noteq> [] \<and> hd zs = LF) \<Longrightarrow>
   reformatted (xs @ zs) = reformatted xs @ reformatted zs"
  by (simp add: reformatted_eq universal_newlines_append separated_append)

lemma reformatted_spaces:
  "reformatted (xs @ replicate (Suc k) CHR '' '' @ ys)
     = reformatted xs @ replicate (Suc k) CHR '','' @ reformatted ys"
proof -
  have "reformatted (xs @ (replicate (Suc k) CHR '' '' @ ys))
      = reformatted xs @ reformatted (replicate (Suc k) CHR '' '' @ ys)"
    by (rule reformatted_append) (simp add: LF_def)
  moreover have "reformatted (replicate (Suc k) CHR '' '' @ ys)
      = replicate (Suc k) CHR '','' @ reformatted ys"
    unfolding reformatted_eq universal_newlines_spaces separated_append separated_spaces ..
  ultimately show ?thesis by simp
qed

lemma reformatted_TAB:
  "reformatted (xs @ [TAB] @ ys) = reformatted xs @ [TAB] @ reformatted ys"
proof -
  have "reformatted (xs @ ([TAB] @ ys)) = reformatted xs @ reformatted ([TAB] @ ys)"
    by (rule reformatted_append) (simp add: LF_def TAB_def)
  moreover have "reformatted ([TAB] @ ys) = [TAB] @ reformatted ys"
    by (simp add: reformatted_eq universal_newlines_Cons_other separated_Cons_other
        TAB_def CR_def DQUOTE_def)
  ultimately show ?thesis by simp
qed

lemma reformatted_LF:
  "xs = [] \<or> last xs \<noteq> CR \<Longrightarrow>
   reformatted (xs @ [LF] @ ys) = reformatted xs @ [LF] @ reformatted ys"
proof -
  assume "xs = [] \<or> last xs \<noteq> CR"
  then have "reformatted (xs @ ([LF] @ ys)) = reformatted xs @ reformatted ([LF] @ ys)"
    by (intro reformatted_append) auto
  moreover have "reformatted ([LF] @ ys) = [LF] @ reformatted ys"
    by (simp add: reformatted_eq universal_newlines_Cons_other separated_Cons_other
        LF_def CR_def DQUOTE_def)
  ultimately show ?thesis by simp
qed

lemma reformatted_CR:
  "ys = [] \<or> hd ys \<noteq> LF \<Longrightarrow>
   reformatted (xs @ [CR] @ ys) = reformatted xs @ [LF] @ reformatted ys"
proof -
  assume ys: "ys = [] \<or> hd ys \<noteq> LF"
  have "reformatted (xs @ ([CR] @ ys)) = reformatted xs @ reformatted ([CR] @ ys)"
    by (rule reformatted_append) (simp add: CR_neq_LF)
  moreover have "reformatted ([CR] @ ys) = [LF] @ reformatted ys"
    using ys
    by (simp add: reformatted_eq universal_newlines_CR separated_Cons_other LF_def DQUOTE_def)
  ultimately show ?thesis by simp
qed

lemma reformatted_CRLF:
  "reformatted (xs @ [CR, LF] @ ys) = reformatted xs @ [LF] @ reformatted ys"
proof -
  have "reformatted (xs @ ([CR, LF] @ ys)) = reformatted xs @ reformatted ([CR, LF] @ ys)"
    by (rule reformatted_append) (simp add: CR_neq_LF)
  moreover have "reformatted ([CR, LF] @ ys) = [LF] @ reformatted ys"
    by (simp add: reformatted_eq separated_Cons_other LF_def DQUOTE_def)
  ultimately show ?thesis by simp
qed

lemma convert_line_keeps_shape:
  assumes "l \<noteq> []" "LF \<notin> set (butlast l)"
  shows "LF \<notin> set (butlast (convert_line l))"
proof -
  have b: "LF \<notin> set (convert_line (butlast l))"
    using assms(2) by (auto simp add: set_convert_line LF_def split: if_splits)
  have "convert_line l = convert_line (butlast l @ [last l])" using assms(1) by simp
  then have c: "convert_line l = convert_line (butlast l) @ convert_line [last l]"
    by (simp only: convert_line_append)
  have "convert_line [last l] = [] \<or> (\<exists>x. convert_line [last l] = [x])"
    by (simp add: line_defs)
  then show ?thesis
  proof
    assume "convert_line [last l] = []"
    with c b show ?thesis by (auto dest: in_set_butlastD)
  next
    assume "\<exists>x. convert_line [last l] = [x]"
    then obtain x where "convert_line [last l] = [x]" ..
    with c b show ?thesis by (simp add: butlast_append)
  qed
qed

lemma txt_to_csv_one_file:
  assumes "files w p = Some text"
  shows "txt_to_csv w [p] = Inr (map convert_line (readlines text))"
proof -
  from assms have "map (files w) [p] = map Some [text]" by simp
  from txt_to_csv_readable [OF this] show ?thesis by simp
qed

lemma concat_converted: "concat (map convert_line (readlines s)) = reformatted s"
  by (simp add: concat_map_convert_line readlines_def concat_split_lines
      convert_line_separated reformatted_eq)

lemma converted_shape:
  "list_all (\<lambda>l. LF \<notin> set (butlast l)) (map convert_line (readlines s))"
  unfolding list_all_iff
proof
  fix l assume "l \<in> set (map convert_line (readlines s))"
  then obtain l0 where l0: "l0 \<in> set (readlines s)" and l: "l = convert_line l0" by auto
  from readlines_shape [OF l0] show "LF \<notin> set (butlast l)"
    unfolding l by (simp add: convert_line_keeps_shape)
qed

lemma converted_butlast:
  "list_all ends_with_newline (butlast (map convert_line (readlines s)))"
  unfolding list_all_iff
proof
  fix l assume "l \<in> set (butlast (map convert_line (readlines s)))"
  then have "l \<in> set (map convert_line (butlast (readlines s)))" by (simp add: map_butlast)
  then obtain l0 where l0: "l0 \<in> set (butlast (readlines s))" and l: "l = convert_line l0"
    by auto
  from l0 have e: "ends_with_newline l0"
    using split_lines_butlast [of "[]" "universal_newlines s"]
    by (simp add: readlines_def list_all_iff)
  from l0 have "l0 \<in> set (readlines s)" by (rule in_set_butlastD)
  from readlines_shape [OF this] e show "ends_with_newline l"
    unfolding l by (simp add: convert_line_ends)
qed

lemma converted_length:
  "length (map convert_line (readlines s))
     = length (filter (\<lambda>c. c = LF) (newlines_as_read s))
       + (if newlines_as_read s = [] \<or> last (newlines_as_read s) = LF then 0 else 1)"
  using length_split_lines [of "[]" "universal_newlines s"]
  by (simp add: readlines_def newlines_as_read_eq)

section \<open>The claims about the reformatter\<close>

text \<open>
  C1. For every input line the reformatter produces the line obtained by removing every
  comma, then replacing every remaining space by a comma, then removing every double
  quote: when every file of the sequence can be read, \<open>txt_to_csv\<close> returns the lines of
  the files, in order, each transformed by the three steps of \<open>spec_line\<close>.
\<close>

theorem txt_to_csv_three_steps:
  assumes "map (files w) txt_files = map Some texts"
  shows "txt_to_csv w txt_files = Inr (map spec_line (concat (map readlines texts)))"
proof -
  have "convert_line = spec_line"
    by (rule ext) (rule convert_line_spec)
  with txt_to_csv_readable [OF assms] show ?thesis
    by (simp add: map_concat comp_def)
qed

theorem txt_to_csv_three_steps_witness:
  "map (files sample_world) [''page_1.txt'', ''page_2.txt''] = map Some [sample_page_1, sample_page_2]
   \<and> txt_to_csv sample_world [''page_1.txt'', ''page_2.txt'']
       = Inr [''Name,Age'' @ [LF], ''John,,Doe,30'' @ [LF], ''x,y'']"
proof -
  have h: "map (files sample_world) [''page_1.txt'', ''page_2.txt'']
      = map Some [sample_page_1, sample_page_2]"
    by (simp add: sample_world_def write_file_def)
  have "map spec_line (concat (map readlines [sample_page_1, sample_page_2]))
      = [''Name,Age'' @ [LF], ''John,,Doe,30'' @ [LF], ''x,y'']"
    by (simp add: sample_page_1_def sample_page_2_def readlines_def spec_line_def
        remove_char_def spaces_to_separators_def DQUOTE_def LF_def CR_def)
  with txt_to_csv_three_steps [OF h] h show ?thesis by simp
qed

text \<open>
  C2. On the line \<open>John Doe, Age: 30\<close> the reformatter does not yield
  \<open>John,Doe,,Age:,30\<close>: the comma is removed before the spaces are replaced, so the one
  space after it gives one separator and the line becomes \<open>John,Doe,Age:,30\<close>, also when
  it is read from a page file.
\<close>

theorem john_doe_line:
  "convert_line ''John Doe, Age: 30'' = ''John,Doe,Age:,30''
   \<and> txt_to_csv (write_file p ''John Doe, Age: 30'' w) [p] = Inr [''John,Doe,Age:,30'']"
  by (simp add: txt_to_csv_def open_readlines_def write_file_def readlines_def LF_def CR_def
      line_defs)

theorem john_doe_line_counterexample:
  "convert_line ''John Doe, Age: 30'' \<noteq> ''John,Doe,,Age:,30''
   \<and> txt_to_csv (write_file ''page_1.txt'' ''John Doe, Age: 30'' empty_world) [''page_1.txt'']
       \<noteq> Inr [''John,Doe,,Age:,30'']"
  by (simp add: txt_to_csv_def open_readlines_def write_file_def readlines_def LF_def CR_def
      line_defs)

text \<open>
  C3. When every file of the sequence can be read, the list the reformatter returns has
  as many lines as were read from all the files together, and a returned line ends with
  a line feed exactly when the line it comes from does.
\<close>

theorem txt_to_csv_line_count:
  assumes "map (files w) txt_files = map Some texts"
  shows "\<exists>converted. txt_to_csv w txt_files = Inr converted \<and>
           length converted = sum_list (map (\<lambda>t. length (readlines t)) texts) \<and>
           list_all2 (\<lambda>line out. ends_with_newline out = ends_with_newline line)
             (concat (map readlines texts)) converted"
proof -
  let ?lines = "concat (map readlines texts)"
  have out: "txt_to_csv w txt_files = Inr (map convert_line ?lines)"
    using txt_to_csv_readable [OF assms] by (simp add: map_concat comp_def)
  have len: "length (map convert_line ?lines) = sum_list (map (\<lambda>t. length (readlines t)) texts)"
    by (simp add: length_concat comp_def)
  have "\<forall>l \<in> set ?lines. ends_with_newline (convert_line l) = ends_with_newline l"
  proof
    fix l assume "l \<in> set ?lines"
    then obtain t where "l \<in> set (readlines t)" by auto
    then have "l \<noteq> [] \<and> LF \<notin> set (butlast l)" by (rule readlines_shape)
    then show "ends_with_newline (convert_line l) = ends_with_newline l"
      by (simp add: convert_line_ends)
  qed
  then have "list_all2 (\<lambda>line out. ends_with_newline out = ends_with_newline line)
      ?lines (map convert_line ?lines)"
    by (simp add: list_all2_map2 list_all2_same)
  with out len show ?thesis by blast
qed

theorem txt_to_csv_line_count_witness:
  "map (files sample_world) [''page_1.txt'', ''page_2.txt''] = map Some [sample_page_1, sample_page_2]
   \<and> (\<exists>converted. txt_to_csv sample_world [''page_1.txt'', ''page_2.txt''] = Inr converted
        \<and> length converted = 3)"
proof -
  have h: "map (files sample_world) [''page_1.txt'', ''page_2.txt'']
      = map Some [sample_page_1, sample_page_2]"
    by (simp add: sample_world_def write_file_def)
  have "sum_list (map (\<lambda>t. length (readlines t)) [sample_page_1, sample_page_2]) = 3"
    by (simp add: sample_page_1_def sample_page_2_def readlines_def DQUOTE_def LF_def CR_def)
  with txt_to_csv_line_count [OF h] h show ?thesis by auto
qed

text \<open>
  C4. When every page file can be read, the reformatter returns the transformed lines of
  the first page in their order, then those of the second page, and so on: nothing is
  reordered and nothing is dropped as a duplicate. The lines of the first \<open>n\<close> pages
  are the first lines of the whole output, followed by those of the remaining pages.
\<close>

theorem txt_to_csv_page_order:
  assumes "map (files w) txt_files = map Some texts"
  shows "txt_to_csv w txt_files
           = Inr (concat (map (\<lambda>t. map convert_line (readlines t)) texts))
         \<and> txt_to_csv w (take n txt_files)
           = Inr (concat (map (\<lambda>t. map convert_line (readlines t)) (take n texts)))
         \<and> txt_to_csv w (drop n txt_files)
           = Inr (concat (map (\<lambda>t. map convert_line (readlines t)) (drop n texts)))
         \<and> concat (map (\<lambda>t. map convert_line (readlines t)) texts)
           = concat (map (\<lambda>t. map convert_line (readlines t)) (take n texts))
             @ concat (map (\<lambda>t. map convert_line (readlines t)) (drop n texts))"
proof -
  let ?page = "\<lambda>t. map convert_line (readlines t)"
  have all: "txt_to_csv w txt_files = Inr (concat (map ?page texts))"
    using assms by (rule txt_to_csv_readable)
  have "map (files w) (take n txt_files) = map Some (take n texts)"
    using assms by (simp flip: take_map)
  then have first: "txt_to_csv w (take n txt_files) = Inr (concat (map ?page (take n texts)))"
    by (rule txt_to_csv_readable)
  have "map (files w) (drop n txt_files) = map Some (drop n texts)"
    using assms by (simp flip: drop_map)
  then have rest: "txt_to_csv w (drop n txt_files) = Inr (concat (map ?page (drop n texts)))"
    by (rule txt_to_csv_readable)
  have "concat (map ?page texts) = concat (map ?page (take n texts @ drop n texts))"
    by simp
  also have "\<dots> = concat (map ?page (take n texts)) @ concat (map ?page (drop n texts))"
    unfolding map_append concat_append ..
  finally show ?thesis using all first rest by blast
qed

theorem txt_to_csv_page_order_witness:
  "map (files sample_world) [''page_2.txt'', ''page_1.txt'', ''page_2.txt'']
     = map Some [sample_page_2, sample_page_1, sample_page_2]
   \<and> txt_to_csv sample_world [''page_2.txt'', ''page_1.txt'', ''page_2.txt'']
       = Inr [''x,y'', ''Name,Age'' @ [LF], ''John,,Doe,30'' @ [LF], ''x,y'']
   \<and> txt_to_csv sample_world (take 1 [''page_2.txt'', ''page_1.txt'', ''page_2.txt''])
       = Inr [''x,y'']"
proof -
  have h: "map (files sample_world) [''page_2.txt'', ''page_1.txt'', ''page_2.txt'']
      = map Some [sample_page_2, sample_page_1, sample_page_2]"
    by (simp add: sample_world_def write_file_def)
  have 1: "map convert_line (readlines sample_page_1)
      = [''Name,Age'' @ [LF], ''John,,Doe,30'' @ [LF]]"
    by (simp add: sample_page_1_def readlines_def line_defs LF_def CR_def)
  have 2: "map convert_line (readlines sample_page_2) = [''x,y'']"
    by (simp add: sample_page_2_def readlines_def line_defs LF_def CR_def)
  from txt_to_csv_page_order [OF h, of 1] h show ?thesis
    by (simp add: 1 2)
qed

text \<open>
  C5. On a line free of commas and double quotes the two removal steps change nothing,
  but applying the whole transformation a second time is not always without effect: the
  second pass deletes the separators the first pass put in for the spaces. On such a
  line, twice gives the same as once exactly when the line has no space either.
\<close>

theorem convert_line_twice:
  assumes "CHR '','' \<notin> set line" "DQUOTE \<notin> set line"
  shows "replace '','' [] line = line \<and> replace [DQUOTE] [] line = line
       \<and> (convert_line (convert_line line) = convert_line line
            \<longleftrightarrow> CHR '' '' \<notin> set line)"
proof (intro conjI iffI)
  show "replace '','' [] line = line"
    using assms(1) by (induction line) (auto simp add: replace_char_remove remove_char_def)
next
  show "replace [DQUOTE] [] line = line"
    using assms(2) by (induction line) (auto simp add: replace_char_remove remove_char_def)
next
  assume eq: "convert_line (convert_line line) = convert_line line"
  have "CHR '','' \<notin> set (convert_line (convert_line line))"
    by (simp add: set_convert_line)
  with eq have "CHR '','' \<notin> set (convert_line line)" by simp
  then show "CHR '' '' \<notin> set line"
    by (auto simp add: set_convert_line split: if_splits)
next
  assume "CHR '' '' \<notin> set line"
  with assms have "convert_line line = line" by (rule convert_line_id)
  then show "convert_line (convert_line line) = convert_line line" by simp
qed

theorem convert_line_twice_witness:
  "CHR '','' \<notin> set ''Age:30'' \<and> DQUOTE \<notin> set ''Age:30''
   \<and> CHR '' '' \<notin> set ''Age:30''
   \<and> convert_line (convert_line ''Age:30'') = convert_line ''Age:30''"
proof -
  have h: "CHR '','' \<notin> set ''Age:30''" "DQUOTE \<notin> set ''Age:30''"
    and s: "CHR '' '' \<notin> set ''Age:30''"
    by (simp_all add: DQUOTE_def)
  from convert_line_twice [OF h] s h show ?thesis by blast
qed

theorem convert_line_twice_counterexample:
  "CHR '','' \<notin> set ''a b'' \<and> DQUOTE \<notin> set ''a b''
   \<and> convert_line ''a b'' = ''a,b''
   \<and> convert_line (convert_line ''a b'') = ''ab''
   \<and> convert_line (convert_line ''a b'') \<noteq> convert_line ''a b''"
  by (simp add: line_defs)

text \<open>
  C9. Whatever the files hold, no line that the reformatter returns contains a space or
  a double quote.
\<close>

theorem txt_to_csv_no_space_no_quote:
  assumes "txt_to_csv w txt_files = Inr converted" "line \<in> set converted"
  shows "CHR '' '' \<notin> set line \<and> DQUOTE \<notin> set line"
proof -
  from assms(1) obtain texts where "map (files w) txt_files = map Some texts"
    unfolding txt_to_csv_def by (blast dest: txt_to_csv_loop_Inr)
  from txt_to_csv_readable [OF this] assms
  obtain l where "line = convert_line l" by auto
  then show ?thesis by (simp add: set_convert_line DQUOTE_def)
qed

theorem txt_to_csv_no_space_no_quote_witness:
  "txt_to_csv sample_world [''page_1.txt''] = Inr [''Name,Age'' @ [LF], ''John,,Doe,30'' @ [LF]]
   \<and> ''Name,Age'' @ [LF] \<in> set [''Name,Age'' @ [LF], ''John,,Doe,30'' @ [LF]]
   \<and> CHR '' '' \<notin> set (''Name,Age'' @ [LF]) \<and> DQUOTE \<notin> set (''Name,Age'' @ [LF])"
proof -
  have h: "txt_to_csv sample_world [''page_1.txt'']
      = Inr [''Name,Age'' @ [LF], ''John,,Doe,30'' @ [LF]]"
    by (simp add: txt_to_csv_def open_readlines_def sample_world_def write_file_def
        sample_page_1_def readlines_def line_defs LF_def CR_def)
  have m: "''Name,Age'' @ [LF] \<in> set [''Name,Age'' @ [LF], ''John,,Doe,30'' @ [LF]]"
    by simp
  from txt_to_csv_no_space_no_quote [OF h m] h m show ?thesis by blast
qed

text \<open>
  C10. The reformatter does not leave a carriage return unchanged: the file is read in
  text mode, so every \<open>\r\n\<close> and every other \<open>\r\<close> reaches the output as one \<open>\n\<close>,
  which ends a line there, and no returned line holds a carriage return. The rest of the
  claim holds for the file as a whole. The returned lines, joined, are the text as read
  with one comma for every space and without its commas and double quotes; they are cut
  after every line feed and nowhere else. So a run of \<open>k\<close> spaces gives \<open>k\<close> commas at
  the same place, never a single separator, and a tab and a line feed stay what they
  are.
\<close>

theorem txt_to_csv_whitespace:
  assumes "files w p = Some text"
  shows "\<exists>out. txt_to_csv w [p] = Inr out
          \<and> concat out = reformatted text
          \<and> list_all (\<lambda>l. LF \<notin> set (butlast l)) out
          \<and> list_all ends_with_newline (butlast out)
          \<and> length out
              = length (filter (\<lambda>c. c = LF) (newlines_as_read text))
                + (if newlines_as_read text = [] \<or> last (newlines_as_read text) = LF
                   then 0 else 1)
          \<and> CR \<notin> set (concat out)
          \<and> (CR \<notin> set text \<longrightarrow> concat out = separated text)
          \<and> (text = xs @ replicate (Suc k) CHR '' '' @ ys \<longrightarrow>
               concat out = reformatted xs @ replicate (Suc k) CHR '','' @ reformatted ys)
          \<and> (text = xs @ [TAB] @ ys \<longrightarrow>
               concat out = reformatted xs @ [TAB] @ reformatted ys)
          \<and> (text = xs @ [LF] @ ys \<and> (xs = [] \<or> last xs \<noteq> CR) \<longrightarrow>
               concat out = reformatted xs @ [LF] @ reformatted ys)
          \<and> (text = xs @ [CR, LF] @ ys \<longrightarrow>
               concat out = reformatted xs @ [LF] @ reformatted ys)
          \<and> (text = xs @ [CR] @ ys \<and> (ys = [] \<or> hd ys \<noteq> LF) \<longrightarrow>
               concat out = reformatted xs @ [LF] @ reformatted ys)"
proof -
  let ?out = "map convert_line (readlines text)"
  have run: "txt_to_csv w [p] = Inr ?out"
    using assms by (rule txt_to_csv_one_file)
  have joined: "concat ?out = reformatted text"
    by (rule concat_converted)
  have shape: "list_all (\<lambda>l. LF \<notin> set (butlast l)) ?out"
    by (rule converted_shape)
  have ends: "list_all ends_with_newline (butlast ?out)"
    by (rule converted_butlast)
  have len: "length ?out
      = length (filter (\<lambda>c. c = LF) (newlines_as_read text))
        + (if newlines_as_read text = [] \<or> last (newlines_as_read text) = LF then 0 else 1)"
    by (rule converted_length)
  have "CR \<notin> set (separated (universal_newlines text))"
    using set_separated [of "universal_newlines text"] universal_newlines_no_CR [of "text"]
    by (auto simp add: CR_def)
  then have no_cr: "CR \<notin> set (concat ?out)"
    by (simp add: joined reformatted_eq)
  have plain: "CR \<notin> set text \<longrightarrow> concat ?out = separated text"
    by (simp add: joined reformatted_eq universal_newlines_id)
  have spaces: "text = xs @ replicate (Suc k) CHR '' '' @ ys \<longrightarrow>
      concat ?out = reformatted xs @ replicate (Suc k) CHR '','' @ reformatted ys"
    unfolding joined using reformatted_spaces [of xs k ys] by simp
  have tab: "text = xs @ [TAB] @ ys \<longrightarrow>
      concat ?out = reformatted xs @ [TAB] @ reformatted ys"
    unfolding joined using reformatted_TAB [of xs ys] by simp
  have lf: "text = xs @ [LF] @ ys \<and> (xs = [] \<or> last xs \<noteq> CR) \<longrightarrow>
      concat ?out = reformatted xs @ [LF] @ reformatted ys"
    unfolding joined using reformatted_LF [of xs ys] by auto
  have crlf: "text = xs @ [CR, LF] @ ys \<longrightarrow>
      concat ?out = reformatted xs @ [LF] @ reformatted ys"
    unfolding joined using reformatted_CRLF [of xs ys] by simp
  have cr: "text = xs @ [CR] @ ys \<and> (ys = [] \<or> hd ys \<noteq> LF) \<longrightarrow>
      concat ?out = reformatted xs @ [LF] @ reformatted ys"
    unfolding joined using reformatted_CR [of ys xs] by auto
  show ?thesis
    apply (rule exI [of _ ?out])
    using run joined shape ends len no_cr plain spaces tab lf crlf cr apply blast
    done
qed

theorem txt_to_csv_whitespace_witness:
  "files sample_world ''page_1.txt'' = Some sample_page_1
   \<and> sample_page_1 = (''Name, '' @ [DQUOTE] @ ''Age'' @ [DQUOTE, LF] @ ''John'')
        @ replicate (Suc 1) CHR '' '' @ (''Doe 30'' @ [CR, LF])
   \<and> (\<exists>out. txt_to_csv sample_world [''page_1.txt''] = Inr out
         \<and> concat out = (''Name,Age'' @ [LF] @ ''John'') @ '',,'' @ (''Doe,30'' @ [LF])
         \<and> length out = 2
         \<and> CR \<notin> set (concat out))"
proof -
  let ?xs = "''Name, '' @ [DQUOTE] @ ''Age'' @ [DQUOTE, LF] @ ''John''"
  let ?ys = "''Doe 30'' @ [CR, LF]"
  have h: "files sample_world ''page_1.txt'' = Some sample_page_1"
    by (simp add: sample_world_def write_file_def)
  have t: "sample_page_1 = ?xs @ replicate (Suc 1) CHR '' '' @ ?ys"
    by (simp add: sample_page_1_def)
  have x: "reformatted ?xs = ''Name,Age'' @ [LF] @ ''John''"
    by code_simp
  have y: "reformatted ?ys = ''Doe,30'' @ [LF]"
    by code_simp
  have n: "length (filter (\<lambda>c. c = LF) (newlines_as_read sample_page_1))
        + (if newlines_as_read sample_page_1 = [] \<or> last (newlines_as_read sample_page_1) = LF
           then 0 else 1) = 2"
    by code_simp
  from txt_to_csv_whitespace [OF h, of ?xs 1 ?ys] t
  obtain out where "txt_to_csv sample_world [''page_1.txt''] = Inr out"
    and "concat out = reformatted ?xs @ replicate (Suc 1) CHR '','' @ reformatted ?ys"
    and "length out
          = length (filter (\<lambda>c. c = LF) (newlines_as_read sample_page_1))
            + (if newlines_as_read sample_page_1 = [] \<or> last (newlines_as_read sample_page_1) = LF
               then 0 else 1)"
    and "CR \<notin> set (concat out)"
    by blast
  then have "\<exists>out. txt_to_csv sample_world [''page_1.txt''] = Inr out
         \<and> concat out = (''Name,Age'' @ [LF] @ ''John'') @ '',,'' @ (''Doe,30'' @ [LF])
         \<and> length out = 2
         \<and> CR \<notin> set (concat out)"
    unfolding x y n by (intro exI [of _ out]) simp
  with h t show ?thesis by blast
qed

theorem txt_to_csv_carriage_return_counterexample:
  "CR \<in> set (''a b'' @ [CR] @ ''c'')
   \<and> txt_to_csv (write_file ''page_1.txt'' (''a b'' @ [CR] @ ''c'') empty_world) [''page_1.txt'']
       = Inr [''a,b'' @ [LF], ''c'']
   \<and> CR \<notin> set (concat [''a,b'' @ [LF], ''c''])
   \<and> txt_to_csv (write_file ''page_1.txt'' (''a b'' @ [CR] @ ''c'') empty_world) [''page_1.txt'']
       \<noteq> Inr [''a,b'' @ [CR] @ ''c'']"
  by (simp add: txt_to_csv_def open_readlines_def write_file_def readlines_def LF_def CR_def
      line_defs)

section \<open>Facts about the page images\<close>

lemma digit_char_inj: "a < 10 \<Longrightarrow> b < 10 \<Longrightarrow> digit_char a = digit_char b \<Longrightarrow> a = b"
proof -
  assume a: "a < 10" and b: "b < 10" and eq: "digit_char a = digit_char b"
  have d: "distinct ''0123456789''" by simp
  have l: "length ''0123456789'' = 10" by simp
  from eq have "''0123456789'' ! a = ''0123456789'' ! b" by (simp only: digit_char_def)
  with nth_eq_iff_index_eq [OF d, of a b] a b l show "a = b" by simp
qed

lemma str_nat_nonempty: "str_nat n \<noteq> []"
  by (subst str_nat.simps) simp

lemma str_nat_small: "n < 10 \<Longrightarrow> str_nat n = [digit_char n]"
  by (subst str_nat.simps) simp

lemma str_nat_big: "\<not> n < 10 \<Longrightarrow> str_nat n = str_nat (n div 10) @ [digit_char (n mod 10)]"
  by (subst str_nat.simps) simp

lemma str_nat_inj: "str_nat n = str_nat m \<Longrightarrow> n = m"
proof (induction n arbitrary: m rule: str_nat.induct)
  case (1 n)
  show ?case
  proof (cases "n < 10")
    case n: True
    show ?thesis
    proof (cases "m < 10")
      case True
      with n "1.prems" show ?thesis by (simp add: str_nat_small digit_char_inj)
    next
      case False
      with n "1.prems" str_nat_nonempty [of "m div 10"] show ?thesis
        by (simp add: str_nat_small str_nat_big)
    qed
  next
    case n: False
    show ?thesis
    proof (cases "m < 10")
      case True
      with n "1.prems" str_nat_nonempty [of "n div 10"] show ?thesis
        by (simp add: str_nat_small str_nat_big)
    next
      case False
      with n "1.prems" have a: "str_nat (n div 10) = str_nat (m div 10)"
        and b: "digit_char (n mod 10) = digit_char (m mod 10)"
        by (simp_all add: str_nat_big)
      from "1.IH" [OF n a] have "n div 10 = m div 10" .
      moreover from b have "n mod 10 = m mod 10" by (simp add: digit_char_inj)
      ultimately show ?thesis by (metis div_mult_mod_eq)
    qed
  qed
qed

lemma page_image_name_inj: "page_image_name n = page_image_name m \<Longrightarrow> n = m"
  by (simp add: page_image_name_def str_nat_inj)

lemma pdf_to_jpg_loop_Cons:
  "pdf_to_jpg_loop i (img # images) jpg_files w =
     pdf_to_jpg_loop (Suc i) images (jpg_files @ [page_image_name (i + 1)])
       (st_write (''Converted to JPG...Saving to: '' @ page_image_name (i + 1))
          (write_file (page_image_name (i + 1)) img w))"
  by (simp add: Let_def page_image_name_def)

lemma main_py_pdf_to_jpg_loop_Cons:
  "main_py_pdf_to_jpg_loop i (img # images) jpg_files w =
     main_py_pdf_to_jpg_loop (Suc i) images (jpg_files @ [page_image_name (i + 1)])
       (write_file (page_image_name (i + 1)) img w)"
  by (simp add: Let_def page_image_name_def)

lemma upt_enumerate: "[i..<i + length (x # xs)] = i # [Suc i..<Suc i + length xs]"
  using upt_conv_Cons [of i "i + length (x # xs)"] by simp

lemma pdf_to_jpg_loop_names:
  "fst (pdf_to_jpg_loop i images jpg_files w)
     = jpg_files @ map (\<lambda>j. page_image_name (j + 1)) [i..<i + length images]"
proof (induction images arbitrary: i jpg_files w)
  case Nil
  then show ?case by simp
next
  case (Cons img images)
  show ?case
    unfolding pdf_to_jpg_loop_Cons Cons.IH upt_enumerate by simp
qed

lemma main_py_pdf_to_jpg_loop_names:
  "fst (main_py_pdf_to_jpg_loop i images jpg_files w)
     = jpg_files @ map (\<lambda>j. page_image_name (j + 1)) [i..<i + length images]"
proof (induction images arbitrary: i jpg_files w)
  case Nil
  then show ?case by simp
next
  case (Cons img images)
  show ?case
    unfolding main_py_pdf_to_jpg_loop_Cons Cons.IH upt_enumerate by simp
qed

lemma pdf_to_jpg_loop_other:
  "p \<notin> (\<lambda>j. page_image_name (j + 1)) ` {i..<i + length images} \<Longrightarrow>
   files (snd (pdf_to_jpg_loop i images jpg_files w)) p = files w p"
proof (induction images arbitrary: i jpg_files w)
  case Nil
  then show ?case by simp
next
  case (Cons img images)
  from Cons.prems have 1: "p \<noteq> page_image_name (i + 1)"
    and 2: "p \<notin> (\<lambda>j. page_image_name (j + 1)) ` {Suc i..<Suc i + length images}"
    by auto
  from 1 show ?case
    unfolding pdf_to_jpg_loop_Cons Cons.IH [OF 2]
    by (simp add: write_file_def st_write_def)
qed

lemma pdf_to_jpg_loop_written:
  "j < length images \<Longrightarrow>
   files (snd (pdf_to_jpg_loop i images jpg_files w)) (page_image_name (i + j + 1))
     = Some (images ! j)"
proof (induction images arbitrary: i j jpg_files w)
  case Nil
  then show ?case by simp
next
  case (Cons img images)
  show ?case
  proof (cases j)
    case 0
    have "page_image_name (i + 1)
        \<notin> (\<lambda>j. page_image_name (j + 1)) ` {Suc i..<Suc i + length images}"
      by (auto dest: page_image_name_inj)
    then show ?thesis using 0
      unfolding pdf_to_jpg_loop_Cons
      by (simp add: pdf_to_jpg_loop_other write_file_def st_write_def)
  next
    case (Suc k)
    with Cons.prems have "k < length images" by simp
    from Cons.IH [OF this, of "Suc i"] Suc show ?thesis
      unfolding pdf_to_jpg_loop_Cons by simp
  qed
qed

section \<open>The claim about the rasterizer adapter\<close>

text \<open>
  C8. For a page range with \<open>first \<le> last\<close>, when the rasterizer returns one image for
  each page of the range, \<open>pdf_to_jpg\<close> returns \<open>last - first + 1\<close> file names, which
  are \<open>page_1.jpg\<close>, \<open>page_2.jpg\<close> and so on in the order of the images (the number is
  the 1-based position of the image in the returned sequence), all different; after the
  call each of these files holds its image and no other file has changed. \<open>pdf_to_jpg\<close>
  of \<open>main.py\<close> takes no page range; it names the images of the whole document in the
  same way.
\<close>

theorem pdf_to_jpg_page_images:
  assumes "firstpage \<le> lastpage"
    and "convert_from_bytes ext pdf_bytes (Some firstpage) (Some lastpage) userpw popplerLoc
           = Inr images"
    and "length images = nat (lastpage - firstpage + 1)"
  shows "(\<exists>jpg_files w'.
           pdf_to_jpg ext pdf_bytes firstpage lastpage userpw popplerLoc w = (Inr jpg_files, w')
         \<and> jpg_files = map (\<lambda>i. page_image_name (i + 1)) [0..<nat (lastpage - firstpage + 1)]
         \<and> length jpg_files = nat (lastpage - firstpage + 1)
         \<and> distinct jpg_files
         \<and> list_all2 (\<lambda>name img. files w' name = Some img) jpg_files images
         \<and> (\<forall>p. p \<notin> set jpg_files \<longrightarrow> files w' p = files w p))
       \<and> (\<forall>whole. convert_from_bytes ext pdf_bytes None None userpw popplerLoc = Inr whole
             \<longrightarrow> fst (main_py_pdf_to_jpg ext pdf_bytes userpw popplerLoc w)
                   = Inr (map (\<lambda>i. page_image_name (i + 1)) [0..<length whole]))"
proof -
  let ?k = "nat (lastpage - firstpage + 1)"
  let ?r = "pdf_to_jpg_loop 0 images [] w"
  let ?names = "map (\<lambda>i. page_image_name (i + 1)) [0..<?k]"
  have run: "pdf_to_jpg ext pdf_bytes firstpage lastpage userpw popplerLoc w = (Inr (fst ?r), snd ?r)"
    by (simp add: pdf_to_jpg_def assms(2) split: prod.splits)
  have names: "fst ?r = ?names"
    using pdf_to_jpg_loop_names [of 0 images "[]" w] assms(3) by simp
  have len: "length ?names = ?k" by simp
  have "inj_on (\<lambda>i. page_image_name (i + 1)) (set [0..<?k])"
    by (rule inj_onI) (auto dest: page_image_name_inj)
  then have dist: "distinct ?names" by (simp add: distinct_map)
  have written: "list_all2 (\<lambda>name img. files (snd ?r) name = Some img) ?names images"
    unfolding list_all2_conv_all_nth
  proof (intro conjI allI impI)
    show "length ?names = length images" using assms(3) by simp
  next
    fix j assume "j < length ?names"
    then have j: "j < length images" using assms(3) by simp
    then have "?names ! j = page_image_name (0 + j + 1)"
      using assms(3) by simp
    with pdf_to_jpg_loop_written [OF j, of 0 "[]" w]
    show "files (snd ?r) (?names ! j) = Some (images ! j)" by simp
  qed
  have other: "\<forall>p. p \<notin> set ?names \<longrightarrow> files (snd ?r) p = files w p"
  proof (intro allI impI)
    fix p assume "p \<notin> set ?names"
    then have "p \<notin> (\<lambda>j. page_image_name (j + 1)) ` {0..<0 + length images}"
      using assms(3) by simp
    then show "files (snd ?r) p = files w p" by (rule pdf_to_jpg_loop_other)
  qed
  have run': "pdf_to_jpg ext pdf_bytes firstpage lastpage userpw popplerLoc w
      = (Inr ?names, snd ?r)"
    using run names by simp
  have ranged: "\<exists>jpg_files w'.
           pdf_to_jpg ext pdf_bytes firstpage lastpage userpw popplerLoc w = (Inr jpg_files, w')
         \<and> jpg_files = ?names
         \<and> length jpg_files = ?k
         \<and> distinct jpg_files
         \<and> list_all2 (\<lambda>name img. files w' name = Some img) jpg_files images
         \<and> (\<forall>p. p \<notin> set jpg_files \<longrightarrow> files w' p = files w p)"
    apply (rule exI [of _ ?names])
    apply (rule exI [of _ "snd ?r"])
    using run' len dist written other apply blast
    done
  have whole: "\<forall>whole. convert_from_bytes ext pdf_bytes None None userpw popplerLoc = Inr whole
             \<longrightarrow> fst (main_py_pdf_to_jpg ext pdf_bytes userpw popplerLoc w)
                   = Inr (map (\<lambda>i. page_image_name (i + 1)) [0..<length whole])"
  proof (intro allI impI)
    fix whole
    assume "convert_from_bytes ext pdf_bytes None None userpw popplerLoc = Inr whole"
    then have "fst (main_py_pdf_to_jpg ext pdf_bytes userpw popplerLoc w)
        = Inr (fst (main_py_pdf_to_jpg_loop 0 whole [] w))"
      by (simp add: main_py_pdf_to_jpg_def split: prod.splits)
    then show "fst (main_py_pdf_to_jpg ext pdf_bytes userpw popplerLoc w)
        = Inr (map (\<lambda>i. page_image_name (i + 1)) [0..<length whole])"
      using main_py_pdf_to_jpg_loop_names [of 0 whole "[]" w] by simp
  qed
  from ranged whole show ?thesis by (rule conjI)
qed

theorem pdf_to_jpg_page_images_witness:
  "(2::int) \<le> 4
   \<and> convert_from_bytes sample_externals ''%PDF'' (Some 2) (Some 4) [] ''/opt/PopplerPath''
       = Inr [''first image'', ''second image'', ''third image'']
   \<and> length [''first image'', ''second image'', ''third image''] = nat (4 - 2 + 1)
   \<and> fst (pdf_to_jpg sample_externals ''%PDF'' 2 4 [] ''/opt/PopplerPath'' empty_world)
       = Inr [''page_1.jpg'', ''page_2.jpg'', ''page_3.jpg'']
   \<and> fst (main_py_pdf_to_jpg sample_externals ''%PDF'' [] ''/opt/PopplerPath'' empty_world)
       = Inr [''page_1.jpg'', ''page_2.jpg'', ''page_3.jpg'']"
proof -
  have h1: "(2::int) \<le> 4" by simp
  have h2: "convert_from_bytes sample_externals ''%PDF'' (Some 2) (Some 4) [] ''/opt/PopplerPath''
      = Inr [''first image'', ''second image'', ''third image'']"
    by (simp add: sample_externals_def)
  have h3: "length [''first image'', ''second image'', ''third image''] = nat (4 - 2 + 1)"
    by simp
  have n: "map (\<lambda>i. page_image_name (i + 1)) [0..<nat (4 - 2 + 1)]
      = [''page_1.jpg'', ''page_2.jpg'', ''page_3.jpg'']"
    by code_simp
  note t = pdf_to_jpg_page_images [OF h1 h2 h3, of empty_world]
  have h4: "convert_from_bytes sample_externals ''%PDF'' None None [] ''/opt/PopplerPath''
      = Inr [''first image'', ''second image'', ''third image'']"
    by (simp add: sample_externals_def)
  have n3: "map (\<lambda>i. page_image_name (i + 1))
       [0..<length [''first image'', ''second image'', ''third image'']]
      = [''page_1.jpg'', ''page_2.jpg'', ''page_3.jpg'']"
    by code_simp
  from t h4 have m: "fst (main_py_pdf_to_jpg sample_externals ''%PDF'' [] ''/opt/PopplerPath''
        empty_world)
      = Inr (map (\<lambda>i. page_image_name (i + 1))
          [0..<length [''first image'', ''second image'', ''third image'']])"
    by blast
  from t
  obtain jpg_files w' where
    r: "pdf_to_jpg sample_externals ''%PDF'' 2 4 [] ''/opt/PopplerPath'' empty_world
          = (Inr jpg_files, w')"
    and j: "jpg_files = map (\<lambda>i. page_image_name (i + 1)) [0..<nat (4 - 2 + 1)]"
    by blast
  have "fst (pdf_to_jpg sample_externals ''%PDF'' 2 4 [] ''/opt/PopplerPath'' empty_world)
      = Inr [''page_1.jpg'', ''page_2.jpg'', ''page_3.jpg'']"
    by (simp only: r j n fst_conv)
  with h1 h2 h3 m [unfolded n3] show ?thesis by blast
qed


section \<open>Facts about the conversion and the analysis\<close>

lemma same_session_refl: "same_session w w"
  by (simp add: same_session_def)

lemma same_session_trans: "same_session a b \<Longrightarrow> same_session b c \<Longrightarrow> same_session a c"
  by (simp add: same_session_def)

lemma same_session_basic:
  "same_session w (write_file p t w)"
  "same_session w (append_file p t w)"
  "same_session w (st_write m w)"
  "same_session w (st_success m w)"
  "same_session w (st_error m w)"
  by (simp_all add: same_session_def write_file_def append_file_def st_write_def st_success_def
      st_error_def)

lemma same_session_step:
  "same_session w (write_file p t w') = same_session w w'"
  "same_session w (append_file p t w') = same_session w w'"
  "same_session w (st_write m w') = same_session w w'"
  "same_session w (st_success m w') = same_session w w'"
  "same_session w (st_error m w') = same_session w w'"
  by (simp_all add: same_session_def write_file_def append_file_def st_write_def st_success_def
      st_error_def)

lemma pdf_to_jpg_loop_session:
  "same_session w0 w \<Longrightarrow> same_session w0 (snd (pdf_to_jpg_loop i images jpg_files w))"
  by (induction images arbitrary: i jpg_files w) (simp_all add: Let_def same_session_step)

lemma main_py_pdf_to_jpg_loop_session:
  "same_session w0 w \<Longrightarrow> same_session w0 (snd (main_py_pdf_to_jpg_loop i images jpg_files w))"
  by (induction images arbitrary: i jpg_files w) (simp_all add: Let_def same_session_step)

lemma pdf_to_jpg_session:
  "same_session w (snd (pdf_to_jpg ext pdf_bytes firstpage lastpage userpw popplerLoc w))"
  by (simp add: pdf_to_jpg_def pdf_to_jpg_loop_session same_session_refl
      split: sum.splits prod.splits)
     (metis pdf_to_jpg_loop_session same_session_refl snd_conv)

lemma main_py_pdf_to_jpg_session:
  "same_session w (snd (main_py_pdf_to_jpg ext pdf_bytes userpw popplerLoc w))"
  by (simp add: main_py_pdf_to_jpg_def same_session_refl split: sum.splits prod.splits)
     (metis main_py_pdf_to_jpg_loop_session same_session_refl snd_conv)

lemma jpg_to_txt_loop_session:
  "same_session w0 w \<Longrightarrow>
   same_session w0 (snd (jpg_to_txt_loop ext tesseractLoc jpg_files txt_files w))"
  by (induction jpg_files arbitrary: txt_files w)
     (simp_all add: Let_def same_session_step save_to_file_as_txt_def split: sum.splits)

lemma main_py_jpg_to_txt_loop_session:
  "same_session w0 w \<Longrightarrow>
   same_session w0 (snd (main_py_jpg_to_txt_loop ext tesseractLoc language jpg_files txt_files w))"
  by (induction jpg_files arbitrary: txt_files w)
     (simp_all add: Let_def same_session_step main_py_save_to_file_as_txt_def split: sum.splits)

lemma write_entries_session:
  "same_session w0 w \<Longrightarrow> same_session w0 (write_entries p data w)"
  by (induction data arbitrary: w) (simp_all add: same_session_step)

lemma write_entries_files:
  "files w p = Some t \<Longrightarrow> files (write_entries p data w) = (files w)(p \<mapsto> t @ concat data)"
proof (induction data arbitrary: w t)
  case Nil
  then show ?case by (simp add: fun_upd_idem)
next
  case (Cons entry data)
  have "files (append_file p entry w) p = Some (t @ entry)"
    using Cons.prems by (simp add: append_file_def)
  from Cons.IH [OF this] show ?case
    using Cons.prems by (auto simp add: append_file_def fun_eq_iff)
qed

lemma save_as_csv_result:
  "save_as_csv data filename w = (csv_filename, w') \<Longrightarrow>
   csv_filename = with_suffix filename ''.csv''
   \<and> files w' = (files w)(csv_filename \<mapsto> concat data)
   \<and> same_session w w'"
proof -
  assume a: "save_as_csv data filename w = (csv_filename, w')"
  let ?f = "with_suffix filename ''.csv''"
  let ?w2 = "write_file ?f [] (st_write (''Converted to CSV...Saving to: '' @ ?f) w)"
  from a have n: "csv_filename = ?f" and w': "w' = write_entries ?f data ?w2"
    by (auto simp add: save_as_csv_def Let_def)
  have "files ?w2 ?f = Some []" by (simp add: write_file_def)
  from write_entries_files [OF this, of data]
  have "files w' = (files w)(?f \<mapsto> concat data)"
    by (simp add: w' write_file_def st_write_def)
  moreover have "same_session w w'"
    unfolding w' by (rule write_entries_session) (simp add: same_session_step same_session_refl)
  ultimately show ?thesis using n by simp
qed

lemma main_py_save_as_csv_result:
  "main_py_save_as_csv data filename w = (csv_filename, w') \<Longrightarrow>
   csv_filename = with_suffix filename ''.csv''
   \<and> files w' = (files w)(csv_filename \<mapsto> concat data)
   \<and> same_session w w'"
  by (auto simp add: main_py_save_as_csv_def Let_def write_file_def same_session_def)

lemma with_suffix_output: "with_suffix ''output'' ''.csv'' = ''output.csv''"
  by (simp add: with_suffix_def path_suffix_def path_name_def)

lemma pdf_to_jpg_sessionD:
  "pdf_to_jpg ext pdf_bytes firstpage lastpage userpw popplerLoc w = (r, w1) \<Longrightarrow>
   same_session w w1"
  using pdf_to_jpg_session [of w ext pdf_bytes firstpage lastpage userpw popplerLoc] by simp

lemma main_py_pdf_to_jpg_sessionD:
  "main_py_pdf_to_jpg ext pdf_bytes userpw popplerLoc w = (r, w1) \<Longrightarrow> same_session w w1"
  using main_py_pdf_to_jpg_session [of w ext pdf_bytes userpw popplerLoc] by simp

lemma jpg_to_txt_sessionD:
  "jpg_to_txt ext tesseractLoc jpg_files w = (r, w1) \<Longrightarrow> same_session w w1"
  using jpg_to_txt_loop_session [OF same_session_refl, of w ext tesseractLoc jpg_files "[]"]
  by (simp add: jpg_to_txt_def)

lemma main_py_jpg_to_txt_sessionD:
  "main_py_jpg_to_txt ext tesseractLoc jpg_files language w = (r, w1) \<Longrightarrow> same_session w w1"
  using main_py_jpg_to_txt_loop_session
    [OF same_session_refl, of w ext tesseractLoc language jpg_files "[]"]
  by (simp add: main_py_jpg_to_txt_def)

lemma conversion_result:
  assumes "conversion ext pdf_bytes userpw first_page last_page w
             = (Inr (csv_data, csv_filename), w1)"
  shows "csv_filename = ''output.csv'' \<and> files w1 ''output.csv'' = Some (concat csv_data)
         \<and> same_session w w1"
proof -
  from assms obtain popplerLoc tesseractLoc jpg_files wa txt_files wb where
    a: "pdf_to_jpg ext pdf_bytes first_page last_page userpw popplerLoc w = (Inr jpg_files, wa)"
    and b: "jpg_to_txt ext tesseractLoc jpg_files wa = (Inr txt_files, wb)"
    and c: "save_as_csv csv_data ''output'' wb = (csv_filename, w1)"
    by (auto simp: conversion_def split: sum.splits prod.splits)
  from save_as_csv_result [OF c] have n: "csv_filename = ''output.csv''"
    and f: "files w1 = (files wb)(csv_filename \<mapsto> concat csv_data)"
    and s: "same_session wb w1"
    by (simp_all add: with_suffix_output)
  from pdf_to_jpg_sessionD [OF a] jpg_to_txt_sessionD [OF b] s have "same_session w w1"
    by (blast intro: same_session_trans)
  with n f show ?thesis by simp
qed

lemma main_py_conversion_result:
  assumes "main_py_conversion ext pdf_bytes userpw language w
             = (Inr (csv_data, csv_filename), w1)"
  shows "csv_filename = ''output.csv'' \<and> files w1 ''output.csv'' = Some (concat csv_data)
         \<and> same_session w w1"
proof -
  from assms obtain popplerLoc tesseractLoc jpg_files wa txt_files wb where
    a: "main_py_pdf_to_jpg ext pdf_bytes userpw popplerLoc w = (Inr jpg_files, wa)"
    and b: "main_py_jpg_to_txt ext tesseractLoc jpg_files language wa = (Inr txt_files, wb)"
    and c: "main_py_save_as_csv csv_data ''output'' wb = (csv_filename, w1)"
    by (auto simp: main_py_conversion_def split: sum.splits prod.splits)
  from main_py_save_as_csv_result [OF c] have n: "csv_filename = ''output.csv''"
    and f: "files w1 = (files wb)(csv_filename \<mapsto> concat csv_data)"
    and s: "same_session wb w1"
    by (simp_all add: with_suffix_output)
  from main_py_pdf_to_jpg_sessionD [OF a] main_py_jpg_to_txt_sessionD [OF b] s
  have "same_session w w1"
    by (blast intro: same_session_trans)
  with n f show ?thesis by simp
qed

lemma analyze_not_found:
  "api_key_env w = None \<or> api_key_env w = Some [] \<Longrightarrow>
   analyze_csv_with_gemini ext csv_content w
     = (Inr None,
        w\<lparr>ui := ui w @ [StError
          ''API key not found. Please set the GEMINI_API_KEY environment variable.'']\<rparr>)"
  by (auto simp add: analyze_csv_with_gemini_def get_api_key_def st_error_def)

lemma analyze_service_error:
  assumes "api_key_env w = Some api_key" "api_key \<noteq> []"
    and "configure ext api_key = None" "generative_model ext ''gemini-1.5-flash'' = None"
    and "generate ext (analysis_prompt csv_content) = Inl e"
  shows "analyze_csv_with_gemini ext csv_content w
     = (Inr None,
        w\<lparr>requests := requests w @ [analysis_prompt csv_content],
          ui := ui w @ [StError
            (''An error occurred while analyzing the CSV with Gemini AI: '' @ exn_str e)]\<rparr>)"
  using assms
  by (simp add: analyze_csv_with_gemini_def get_api_key_def st_error_def call_service_def)

lemma main_py_script_not_found:
  "api_key_env w = None \<Longrightarrow>
   main_py_script ext pdf_bytes userpw language w
     = w\<lparr>ui := ui w @ [StError ''API key not found. Please check your .env file.'']\<rparr>"
  by (simp add: main_py_script_def st_error_def)

lemma main_py_analyze_try_error:
  assumes "generate_content ext (main_py_analysis_prompt ext csv_content) = Inl e
           \<or> (\<exists>response. generate_content ext (main_py_analysis_prompt ext csv_content)
                   = Inr response \<and> response_text_of response = Inl e)"
  shows "main_py_analyze_try ext csv_content output_filename w
     = (Inl e, w\<lparr>requests := requests w @ [main_py_analysis_prompt ext csv_content]\<rparr>)"
  using assms by (auto simp add: main_py_analyze_try_def call_service_def)

lemma main_py_analyze_error:
  assumes "generate_content ext (main_py_analysis_prompt ext csv_content) = Inl e
           \<or> (\<exists>response. generate_content ext (main_py_analysis_prompt ext csv_content)
                   = Inr response \<and> response_text_of response = Inl e)"
  shows "\<exists>prefix result.
           prefix \<in> set [''TypeError: '', ''AttributeError: '', ''An unexpected error occurred: '']
         \<and> main_py_analyze_csv_with_gemini ext csv_content output_filename w
             = (result,
                w\<lparr>requests := requests w @ [main_py_analysis_prompt ext csv_content],
                  ui := ui w @ [StError (prefix @ exn_str e)]\<rparr>)"
proof -
  note t = main_py_analyze_try_error [OF assms, of output_filename w]
  show ?thesis
  proof (cases e)
    case (TypeError m)
    with t have "main_py_analyze_csv_with_gemini ext csv_content output_filename w
      = (''A TypeError occurred.'',
         w\<lparr>requests := requests w @ [main_py_analysis_prompt ext csv_content],
           ui := ui w @ [StError (''TypeError: '' @ exn_str e)]\<rparr>)"
      by (simp add: main_py_analyze_csv_with_gemini_def st_error_def)
    then show ?thesis by (intro exI [of _ "''TypeError: ''"] exI conjI) simp_all
  next
    case (AttributeError m)
    with t have "main_py_analyze_csv_with_gemini ext csv_content output_filename w
      = (''An AttributeError occurred.'',
         w\<lparr>requests := requests w @ [main_py_analysis_prompt ext csv_content],
           ui := ui w @ [StError (''AttributeError: '' @ exn_str e)]\<rparr>)"
      by (simp add: main_py_analyze_csv_with_gemini_def st_error_def)
    then show ?thesis by (intro exI [of _ "''AttributeError: ''"] exI conjI) simp_all
  next
    case (FileNotFoundError p)
    with t have "main_py_analyze_csv_with_gemini ext csv_content output_filename w
      = (''An unexpected error occurred.'',
         w\<lparr>requests := requests w @ [main_py_analysis_prompt ext csv_content],
           ui := ui w @ [StError (''An unexpected error occurred: '' @ exn_str e)]\<rparr>)"
      by (simp add: main_py_analyze_csv_with_gemini_def st_error_def)
    then show ?thesis
      by (intro exI [of _ "''An unexpected error occurred: ''"] exI conjI) simp_all
  next
    case (OtherError m)
    with t have "main_py_analyze_csv_with_gemini ext csv_content output_filename w
      = (''An unexpected error occurred.'',
         w\<lparr>requests := requests w @ [main_py_analysis_prompt ext csv_content],
           ui := ui w @ [StError (''An unexpected error occurred: '' @ exn_str e)]\<rparr>)"
      by (simp add: main_py_analyze_csv_with_gemini_def st_error_def)
    then show ?thesis
      by (intro exI [of _ "''An unexpected error occurred: ''"] exI conjI) simp_all
  qed
qed

lemma pdf2csv_main_after_conversion:
  assumes "conversion ext pdf_bytes userpw first_page last_page w
             = (Inr (csv_data, csv_filename), w1)"
    and "analyze_csv_with_gemini ext (universal_newlines (concat csv_data))
           (w1\<lparr>ui := ui w1 @ [StSuccess ''Conversion completed successfully'',
              StWrite ''CSV Data:'', StWrite (universal_newlines (concat csv_data)),
              StWrite ''Analyzing CSV with Gemini AI...'']\<rparr>) = (Inr None, w')"
  shows "pdf2csv_main ext pdf_bytes userpw first_page last_page w = (Inr (), w')"
proof -
  from conversion_result [OF assms(1)]
  have n: "csv_filename = ''output.csv''"
    and f: "files w1 ''output.csv'' = Some (concat csv_data)" by simp_all
  show ?thesis
    using assms(2)
    by (simp add: pdf2csv_main_def assms(1) n f open_read_def st_success_def st_write_def)
qed

lemma analyze_files:
  "files (snd (analyze_csv_with_gemini ext csv_content w)) = files w"
  by (simp add: analyze_csv_with_gemini_def get_api_key_def call_service_def st_error_def
      Let_def split: option.splits sum.splits)

lemma main_py_analyze_try_files:
  "p \<noteq> output_filename \<Longrightarrow>
   files (snd (main_py_analyze_try ext csv_content output_filename w)) p = files w p"
  by (simp add: main_py_analyze_try_def call_service_def st_write_def write_file_def
      Let_def split: sum.splits)

lemma main_py_analyze_files:
  "p \<noteq> output_filename \<Longrightarrow>
   files (snd (main_py_analyze_csv_with_gemini ext csv_content output_filename w)) p = files w p"
  using main_py_analyze_try_files [of p output_filename ext csv_content w]
  by (auto simp add: main_py_analyze_csv_with_gemini_def st_error_def
      split: prod.splits sum.splits exn.splits)

lemma sample_conversion:
  "fst (conversion sample_externals ''%PDF'' [] 1 3 empty_world)
     = Inr (sample_csv_data, ''output.csv'')"
  by code_simp

lemma sample_main_py_conversion:
  "fst (main_py_conversion sample_externals ''%PDF'' [] ''eng'' empty_world)
     = Inr (sample_csv_data, ''output.csv'')"
  by code_simp

lemma sample_key_conversion:
  "fst (conversion sample_externals ''%PDF'' [] 1 3 sample_key_world)
     = Inr (sample_csv_data, ''output.csv'')"
  by code_simp

lemma sample_key_main_py_conversion:
  "fst (main_py_conversion sample_externals ''%PDF'' [] ''eng'' sample_key_world)
     = Inr (sample_csv_data, ''output.csv'')"
  by code_simp

section \<open>The claims about the analysis step\<close>

text \<open>
  C6. When \<open>GEMINI_API_KEY\<close> is not set, the analysis reports that the key was not found
  and does nothing else: \<open>analyze_csv_with_gemini\<close> of \<open>pdf2csv.py\<close> returns \<open>None\<close>
  and the script \<open>main.py\<close> stops before \<open>main\<close>, in both cases with a world that
  differs in the message only, so no request is sent and no file is written. In a run of
  \<open>pdf2csv.py\<close> whose conversion has succeeded, \<open>main\<close> returns normally, the files
  are those the conversion left, \<open>output.csv\<close> among them, and no request has been sent.
\<close>

theorem missing_api_key:
  assumes "api_key_env w = None"
  shows "analyze_csv_with_gemini ext csv_content w
           = (Inr None,
              w\<lparr>ui := ui w @ [StError
                ''API key not found. Please set the GEMINI_API_KEY environment variable.'']\<rparr>)
       \<and> main_py_script ext pdf_bytes userpw language w
           = w\<lparr>ui := ui w @ [StError ''API key not found. Please check your .env file.'']\<rparr>
       \<and> (\<forall>csv_data csv_filename w1.
             conversion ext pdf_bytes userpw first_page last_page w
               = (Inr (csv_data, csv_filename), w1) \<longrightarrow>
             (\<exists>w'. pdf2csv_main ext pdf_bytes userpw first_page last_page w = (Inr (), w')
                \<and> files w' = files w1
                \<and> files w' ''output.csv'' = Some (concat csv_data)
                \<and> requests w' = requests w
                \<and> last (ui w') = StError
                     ''API key not found. Please set the GEMINI_API_KEY environment variable.''))"
proof (intro conjI allI impI)
  show "analyze_csv_with_gemini ext csv_content w
           = (Inr None,
              w\<lparr>ui := ui w @ [StError
                ''API key not found. Please set the GEMINI_API_KEY environment variable.'']\<rparr>)"
    using assms by (simp add: analyze_not_found)
next
  show "main_py_script ext pdf_bytes userpw language w
           = w\<lparr>ui := ui w @ [StError ''API key not found. Please check your .env file.'']\<rparr>"
    using assms by (rule main_py_script_not_found)
next
  fix csv_data csv_filename w1
  assume conv: "conversion ext pdf_bytes userpw first_page last_page w
               = (Inr (csv_data, csv_filename), w1)"
  let ?w5 = "w1\<lparr>ui := ui w1 @ [StSuccess ''Conversion completed successfully'',
              StWrite ''CSV Data:'', StWrite (universal_newlines (concat csv_data)),
              StWrite ''Analyzing CSV with Gemini AI...'']\<rparr>"
  let ?w' = "?w5\<lparr>ui := ui ?w5 @ [StError
                ''API key not found. Please set the GEMINI_API_KEY environment variable.'']\<rparr>"
  from conversion_result [OF conv]
  have f: "files w1 ''output.csv'' = Some (concat csv_data)" and s: "same_session w w1"
    by simp_all
  from s assms have "api_key_env ?w5 = None" by (simp add: same_session_def)
  then have "analyze_csv_with_gemini ext (universal_newlines (concat csv_data)) ?w5
      = (Inr None, ?w')"
    by (simp add: analyze_not_found)
  with conv have "pdf2csv_main ext pdf_bytes userpw first_page last_page w = (Inr (), ?w')"
    by (rule pdf2csv_main_after_conversion)
  moreover have "files ?w' = files w1" "files ?w' ''output.csv'' = Some (concat csv_data)"
    "requests ?w' = requests w"
    "last (ui ?w') = StError
       ''API key not found. Please set the GEMINI_API_KEY environment variable.''"
    using f s by (simp_all add: same_session_def)
  ultimately show "\<exists>w'. pdf2csv_main ext pdf_bytes userpw first_page last_page w = (Inr (), w')
                \<and> files w' = files w1
                \<and> files w' ''output.csv'' = Some (concat csv_data)
                \<and> requests w' = requests w
                \<and> last (ui w') = StError
                     ''API key not found. Please set the GEMINI_API_KEY environment variable.''"
    by blast
qed

theorem missing_api_key_witness:
  "api_key_env empty_world = None
   \<and> fst (analyze_csv_with_gemini sample_externals ''a,b'' empty_world) = Inr None
   \<and> requests (snd (analyze_csv_with_gemini sample_externals ''a,b'' empty_world)) = []
   \<and> requests (main_py_script sample_externals ''%PDF'' [] ''eng'' empty_world) = []
   \<and> fst (conversion sample_externals ''%PDF'' [] 1 3 empty_world)
       = Inr (sample_csv_data, ''output.csv'')
   \<and> fst (pdf2csv_main sample_externals ''%PDF'' [] 1 3 empty_world) = Inr ()
   \<and> requests (snd (pdf2csv_main sample_externals ''%PDF'' [] 1 3 empty_world)) = []
   \<and> files (snd (pdf2csv_main sample_externals ''%PDF'' [] 1 3 empty_world)) ''output.csv''
       = Some (concat sample_csv_data)"
proof -
  have h: "api_key_env empty_world = None" by (simp add: empty_world_def)
  have r: "requests empty_world = []" by (simp add: empty_world_def)
  note t = missing_api_key [OF h, of sample_externals "''a,b''" "''%PDF''" "[]" "''eng''" 1 3]
  let ?c = "conversion sample_externals ''%PDF'' [] 1 3 empty_world"
  have c: "?c = (Inr (sample_csv_data, ''output.csv''), snd ?c)"
    using sample_conversion by (simp add: prod_eq_iff)
  from t c obtain w' where
    m: "pdf2csv_main sample_externals ''%PDF'' [] 1 3 empty_world = (Inr (), w')"
    and "files w' ''output.csv'' = Some (concat sample_csv_data)"
    and "requests w' = requests empty_world"
    by blast
  with t h r sample_conversion show ?thesis by simp
qed

text \<open>
  C7. An error of the service call is caught and reported, and the run keeps what the
  conversion has written. In \<open>pdf2csv.py\<close>, once the key is there and the client is set
  up, an exception of \<open>model.generate\<close> ends in an error message, \<open>main\<close> returns
  normally and the files are those the conversion left. In \<open>main.py\<close> an exception of
  \<open>model.generate_content\<close> or of reading \<open>response.text\<close> ends in one of the three
  error messages of the handlers; \<open>main\<close> goes on, and the files are those the conversion
  left. Whatever happens in it, the analysis of \<open>pdf2csv.py\<close> changes no file, and that of
  \<open>main.py\<close> changes no file but the one it is asked to write.
\<close>

theorem analysis_error_partial_success:
  "(api_key_env w = Some api_key \<and> api_key \<noteq> []
      \<and> configure ext api_key = None \<and> generative_model ext ''gemini-1.5-flash'' = None
      \<and> conversion ext pdf_bytes userpw first_page last_page w
          = (Inr (csv_data, csv_filename), w1)
      \<and> generate ext (analysis_prompt (universal_newlines (concat csv_data))) = Inl e
    \<longrightarrow> (\<exists>w'. pdf2csv_main ext pdf_bytes userpw first_page last_page w = (Inr (), w')
           \<and> files w' = files w1
           \<and> files w' ''output.csv'' = Some (concat csv_data)
           \<and> last (ui w') = StError
                (''An error occurred while analyzing the CSV with Gemini AI: '' @ exn_str e)))
   \<and> (main_py_conversion ext pdf_bytes userpw language w
          = (Inr (csv_data, csv_filename), w1)
      \<and> (generate_content ext (main_py_analysis_prompt ext csv_data) = Inl e
          \<or> (\<exists>response. generate_content ext (main_py_analysis_prompt ext csv_data)
                  = Inr response \<and> response_text_of response = Inl e))
    \<longrightarrow> (\<exists>prefix.
           prefix \<in> set [''TypeError: '', ''AttributeError: '', ''An unexpected error occurred: '']
           \<and> files (main_py_main ext pdf_bytes userpw language w) = files w1
           \<and> files (main_py_main ext pdf_bytes userpw language w) ''output.csv''
               = Some (concat csv_data)
           \<and> ui (main_py_main ext pdf_bytes userpw language w)
               = ui w1 @ [StSuccess ''Conversion completed successfully'',
                          StError (prefix @ exn_str e),
                          StWrite ''Analysis saved to: gemini_analysis_output.csv'']))
   \<and> files (snd (analyze_csv_with_gemini ext csv_content w)) = files w
   \<and> (\<forall>p. p \<noteq> output_filename \<longrightarrow>
         files (snd (main_py_analyze_csv_with_gemini ext csv_data output_filename w)) p
           = files w p)"
proof (intro conjI impI allI; (elim conjE)?)
  show "files (snd (analyze_csv_with_gemini ext csv_content w)) = files w"
    by (rule analyze_files)
next
  fix p assume "p \<noteq> output_filename"
  then show "files (snd (main_py_analyze_csv_with_gemini ext csv_data output_filename w)) p
           = files w p"
    by (rule main_py_analyze_files)
next
  assume key: "api_key_env w = Some api_key" "api_key \<noteq> []"
    and cfg: "configure ext api_key = None" "generative_model ext ''gemini-1.5-flash'' = None"
    and conv: "conversion ext pdf_bytes userpw first_page last_page w
          = (Inr (csv_data, csv_filename), w1)"
    and err: "generate ext (analysis_prompt (universal_newlines (concat csv_data))) = Inl e"
  let ?text = "universal_newlines (concat csv_data)"
  let ?w5 = "w1\<lparr>ui := ui w1 @ [StSuccess ''Conversion completed successfully'',
              StWrite ''CSV Data:'', StWrite ?text,
              StWrite ''Analyzing CSV with Gemini AI...'']\<rparr>"
  let ?w' = "?w5\<lparr>requests := requests ?w5 @ [analysis_prompt ?text],
               ui := ui ?w5 @ [StError
                 (''An error occurred while analyzing the CSV with Gemini AI: '' @ exn_str e)]\<rparr>"
  from conversion_result [OF conv]
  have f: "files w1 ''output.csv'' = Some (concat csv_data)" and s: "same_session w w1"
    by simp_all
  from s key have "api_key_env ?w5 = Some api_key" by (simp add: same_session_def)
  from analyze_service_error [OF this key(2) cfg err]
  have "analyze_csv_with_gemini ext ?text ?w5 = (Inr None, ?w')" .
  with conv have "pdf2csv_main ext pdf_bytes userpw first_page last_page w = (Inr (), ?w')"
    by (rule pdf2csv_main_after_conversion)
  moreover have "files ?w' = files w1" "files ?w' ''output.csv'' = Some (concat csv_data)"
    "last (ui ?w') = StError
       (''An error occurred while analyzing the CSV with Gemini AI: '' @ exn_str e)"
    using f by simp_all
  ultimately show "\<exists>w'. pdf2csv_main ext pdf_bytes userpw first_page last_page w = (Inr (), w')
           \<and> files w' = files w1
           \<and> files w' ''output.csv'' = Some (concat csv_data)
           \<and> last (ui w') = StError
                (''An error occurred while analyzing the CSV with Gemini AI: '' @ exn_str e)"
    by blast
next
  assume conv: "main_py_conversion ext pdf_bytes userpw language w
          = (Inr (csv_data, csv_filename), w1)"
    and err: "generate_content ext (main_py_analysis_prompt ext csv_data) = Inl e
          \<or> (\<exists>response. generate_content ext (main_py_analysis_prompt ext csv_data)
                  = Inr response \<and> response_text_of response = Inl e)"
  let ?w2 = "st_success ''Conversion completed successfully'' w1"
  from main_py_conversion_result [OF conv]
  have f: "files w1 ''output.csv'' = Some (concat csv_data)" by simp
  from main_py_analyze_error [OF err, of "''gemini_analysis_output.csv''" ?w2]
  obtain prefix result where
    p: "prefix \<in> set [''TypeError: '', ''AttributeError: '', ''An unexpected error occurred: '']"
    and a: "main_py_analyze_csv_with_gemini ext csv_data ''gemini_analysis_output.csv'' ?w2
             = (result,
                ?w2\<lparr>requests := requests ?w2 @ [main_py_analysis_prompt ext csv_data],
                  ui := ui ?w2 @ [StError (prefix @ exn_str e)]\<rparr>)"
    by blast
  let ?w3 = "?w2\<lparr>requests := requests ?w2 @ [main_py_analysis_prompt ext csv_data],
                  ui := ui ?w2 @ [StError (prefix @ exn_str e)]\<rparr>"
  have m: "main_py_main ext pdf_bytes userpw language w
      = st_write ''Analysis saved to: gemini_analysis_output.csv'' ?w3"
    by (simp add: main_py_main_def main_py_main_try_def conv a)
  have "files (main_py_main ext pdf_bytes userpw language w) = files w1"
    "files (main_py_main ext pdf_bytes userpw language w) ''output.csv'' = Some (concat csv_data)"
    "ui (main_py_main ext pdf_bytes userpw language w)
               = ui w1 @ [StSuccess ''Conversion completed successfully'',
                          StError (prefix @ exn_str e),
                          StWrite ''Analysis saved to: gemini_analysis_output.csv'']"
    unfolding m using f by (simp_all add: st_write_def st_success_def)
  with p show "\<exists>prefix.
           prefix \<in> set [''TypeError: '', ''AttributeError: '', ''An unexpected error occurred: '']
           \<and> files (main_py_main ext pdf_bytes userpw language w) = files w1
           \<and> files (main_py_main ext pdf_bytes userpw language w) ''output.csv''
               = Some (concat csv_data)
           \<and> ui (main_py_main ext pdf_bytes userpw language w)
               = ui w1 @ [StSuccess ''Conversion completed successfully'',
                          StError (prefix @ exn_str e),
                          StWrite ''Analysis saved to: gemini_analysis_output.csv'']"
    by blast
qed

theorem analysis_error_partial_success_witness:
  "api_key_env sample_key_world = Some ''sample-key''
   \<and> generate sample_externals (analysis_prompt (universal_newlines (concat sample_csv_data)))
       = Inl (AttributeError ''no attribute generate'')
   \<and> fst (pdf2csv_main sample_externals ''%PDF'' [] 1 3 sample_key_world) = Inr ()
   \<and> files (snd (pdf2csv_main sample_externals ''%PDF'' [] 1 3 sample_key_world)) ''output.csv''
       = Some (concat sample_csv_data)
   \<and> last (ui (snd (pdf2csv_main sample_externals ''%PDF'' [] 1 3 sample_key_world)))
       = StError (''An error occurred while analyzing the CSV with Gemini AI: ''
                  @ ''no attribute generate'')
   \<and> generate_content sample_externals (main_py_analysis_prompt sample_externals sample_csv_data)
       = Inl (OtherError ''503 Service Unavailable'')
   \<and> files (main_py_main sample_externals ''%PDF'' [] ''eng'' sample_key_world) ''output.csv''
       = Some (concat sample_csv_data)
   \<and> files (main_py_main sample_externals ''%PDF'' [] ''eng'' sample_key_world)
        ''gemini_analysis_output.csv'' = None"
proof -
  let ?c = "conversion sample_externals ''%PDF'' [] 1 3 sample_key_world"
  let ?d = "main_py_conversion sample_externals ''%PDF'' [] ''eng'' sample_key_world"
  have k: "api_key_env sample_key_world = Some ''sample-key''" "''sample-key'' \<noteq> []"
    by (simp_all add: sample_key_world_def)
  have s: "configure sample_externals ''sample-key'' = None"
    "generative_model sample_externals ''gemini-1.5-flash'' = None"
    by (simp_all add: sample_externals_def)
  have c: "?c = (Inr (sample_csv_data, ''output.csv''), snd ?c)"
    using sample_key_conversion by (simp add: prod_eq_iff)
  have d: "?d = (Inr (sample_csv_data, ''output.csv''), snd ?d)"
    using sample_key_main_py_conversion by (simp add: prod_eq_iff)
  have g: "generate sample_externals (analysis_prompt (universal_newlines (concat sample_csv_data)))
       = Inl (AttributeError ''no attribute generate'')"
    by (simp add: sample_externals_def)
  have gc: "generate_content sample_externals
        (main_py_analysis_prompt sample_externals sample_csv_data)
       = Inl (OtherError ''503 Service Unavailable'')"
    by (simp add: sample_externals_def)
  have none: "files (snd ?d) ''gemini_analysis_output.csv'' = None"
    by code_simp
  note t = analysis_error_partial_success [of sample_key_world "''sample-key''" sample_externals
      "''%PDF''" "[]" 1 3 sample_csv_data "''output.csv''" "snd ?c"
      "AttributeError ''no attribute generate''"]
  note u = analysis_error_partial_success [of sample_key_world "''sample-key''" sample_externals
      "''%PDF''" "[]" 1 3 sample_csv_data "''output.csv''" "snd ?d"
      "OtherError ''503 Service Unavailable''" "''eng''"]
  from t k s c g obtain w' where
    "pdf2csv_main sample_externals ''%PDF'' [] 1 3 sample_key_world = (Inr (), w')"
    "files w' ''output.csv'' = Some (concat sample_csv_data)"
    "last (ui w') = StError (''An error occurred while analyzing the CSV with Gemini AI: ''
                  @ exn_str (AttributeError ''no attribute generate''))"
    by blast
  moreover from u d gc
  have "files (main_py_main sample_externals ''%PDF'' [] ''eng'' sample_key_world) = files (snd ?d)"
    "files (main_py_main sample_externals ''%PDF'' [] ''eng'' sample_key_world) ''output.csv''
       = Some (concat sample_csv_data)"
    by blast+
  ultimately show ?thesis using k g gc none by simp
qed


end
